theory Spec2Isabelle
  imports Complex_Main
begin

section \<open>pysar/generate\_kmz\_timeseries.py: raster to KML placemarks\<close>

text \<open>
  A shallow embedding of \<^verbatim>\<open>get_lat_lon\<close> and \<^verbatim>\<open>main\<close>.

  Conventions of the model.
  \<^item> Python and numpy floats are read as exact reals; the one special float the program
    tests for, not-a-number in the velocity raster, is \<open>None\<close> of \<open>real option\<close>.
  \<^item> A 2D numpy array is a list of rows, a 3D array a list of 2D slabs.
  \<^item> Every exception the program can raise is a value \<open>Inl e\<close> of a sum type.
  \<^item> What \<^verbatim>\<open>main\<close> does to the file system (\<^verbatim>\<open>savefig\<close>, \<^verbatim>\<open>open(..., 'w')\<close>,
    \<^verbatim>\<open>os.system\<close>) is a list of events, returned next to the outcome.
  \<^item> The calls into numpy and matplotlib are modelled by what these libraries compute;
    the registry of colour maps and the printing of a float are parameters (\<open>env\<close>).
\<close>

subsection \<open>Errors and effects\<close>

datatype error =
    ZeroSizeReduction      \<comment> \<open>ValueError of \<^verbatim>\<open>np.min\<close>, \<^verbatim>\<open>np.max\<close>, \<^verbatim>\<open>min\<close>, \<^verbatim>\<open>max\<close> on no elements\<close>
  | IndexError             \<comment> \<open>a boolean index of the wrong shape, or an index out of range\<close>
  | UnknownColormap string \<comment> \<open>ValueError of \<^verbatim>\<open>get_cmap\<close>: the name is not registered\<close>
  | MinGreaterThanMax      \<comment> \<open>ValueError of \<^verbatim>\<open>Normalize.__call__\<close>: vmin > vmax\<close>
  | RGBAOutOfRange         \<comment> \<open>ValueError of \<^verbatim>\<open>to_rgba\<close>: a component outside 0-1\<close>

datatype event =
    Savefig string         \<comment> \<open>\<^verbatim>\<open>pc.savefig(name, ...)\<close>\<close>
  | WriteFile string       \<comment> \<open>\<^verbatim>\<open>open(name, 'w')\<close> and \<^verbatim>\<open>f.write\<close>\<close>
  | System string          \<comment> \<open>\<^verbatim>\<open>os.system(cmd)\<close>\<close>

text \<open>Sequencing: an exception ends the computation.\<close>

definition ebind :: "error + 'a \<Rightarrow> ('a \<Rightarrow> error + 'b) \<Rightarrow> error + 'b" where
  "ebind m f = (case m of Inl e \<Rightarrow> Inl e | Inr x \<Rightarrow> f x)"

subsection \<open>Metadata and \<^verbatim>\<open>get_lat_lon\<close>\<close>

record meta =
  LENGTH :: nat
  WIDTH :: nat
  Y_FIRST :: real
  X_FIRST :: real
  Y_STEP :: real
  X_STEP :: real

text \<open>
  One axis of \<^verbatim>\<open>np.mgrid[start:stop:n*1j]\<close>. With a complex step numpy takes \<open>n\<close>
  points, computes \<^verbatim>\<open>step = (stop - start) / float(n - 1)\<close> unless \<open>n = 1\<close> (then the
  step stays 1), and returns \<^verbatim>\<open>index * step + start\<close>.
\<close>

definition mgrid_axis :: "real \<Rightarrow> real \<Rightarrow> nat \<Rightarrow> real list" where
  "mgrid_axis start stop n =
     (let step = (if n \<noteq> 1 then (stop - start) / real (n - 1) else 1)
      in map (\<lambda>k. real k * step + start) [0..<n])"

text \<open>
  The dense two-axis \<^verbatim>\<open>mgrid\<close>: the first result varies along the rows, the second
  along the columns, both of shape (number of rows, number of columns).
\<close>

definition mgrid2 :: "real \<Rightarrow> real \<Rightarrow> nat \<Rightarrow> real \<Rightarrow> real \<Rightarrow> nat \<Rightarrow> real list list \<times> real list list" where
  "mgrid2 a0 a1 an b0 b1 bn =
     (map (\<lambda>y. replicate bn y) (mgrid_axis a0 a1 an),
      replicate an (mgrid_axis b0 b1 bn))"

definition get_lat_lon :: "meta \<Rightarrow> real list list \<times> real list list" where
  "get_lat_lon m =
     (let lat_num = LENGTH m;
          lon_num = WIDTH m;
          lat0 = Y_FIRST m;
          lon0 = X_FIRST m;
          lat_step = Y_STEP m;
          lon_step = X_STEP m;
          lat1 = lat0 + lat_step * real lat_num;
          lon1 = lon0 + lon_step * real lon_num
      in mgrid2 lat0 lat1 lat_num lon0 lon1 lon_num)"

subsection \<open>numpy and Python primitives used by \<^verbatim>\<open>main\<close>\<close>

definition isnan :: "real option \<Rightarrow> bool" where
  "isnan x = (x = None)"

text \<open>\<^verbatim>\<open>mask = ~np.isnan(vel)\<close>\<close>

definition valid_mask :: "real option list list \<Rightarrow> bool list list" where
  "valid_mask a = map (map (\<lambda>x. \<not> isnan x)) a"

text \<open>
  \<^verbatim>\<open>a[mask]\<close> for a 2D array and a 2D boolean array: the cells where the mask is true,
  in row-major order; numpy raises IndexError when the shapes differ.
\<close>

definition masked_cells :: "'a list list \<Rightarrow> bool list list \<Rightarrow> 'a list" where
  "masked_cells a msk = map fst (filter snd (zip (concat a) (concat msk)))"

definition bool_index :: "'a list list \<Rightarrow> bool list list \<Rightarrow> error + 'a list" where
  "bool_index a msk =
     (if map length a = map length msk then Inr (masked_cells a msk) else Inl IndexError)"

text \<open>\<^verbatim>\<open>a[:, mask]\<close> for a 3D array: the same selection in every slab.\<close>

fun bool_index_each :: "'a list list list \<Rightarrow> bool list list \<Rightarrow> error + 'a list list" where
  "bool_index_each [] msk = Inr []"
| "bool_index_each (a # rest) msk =
     ebind (bool_index a msk) (\<lambda>r.
     ebind (bool_index_each rest msk) (\<lambda>rs. Inr (r # rs)))"

text \<open>The cells that are numbers, as reals (after masking, all of them).\<close>

definition reals :: "real option list \<Rightarrow> real list" where
  "reals xs = List.map_filter (\<lambda>x. x) xs"

text \<open>\<^verbatim>\<open>np.min(a)\<close> and \<^verbatim>\<open>np.max(a)\<close> over all elements of a 2D array.\<close>

definition np_min :: "real list list \<Rightarrow> error + real" where
  "np_min a = (case concat a of [] \<Rightarrow> Inl ZeroSizeReduction | x # xs \<Rightarrow> Inr (fold min xs x))"

definition np_max :: "real list list \<Rightarrow> error + real" where
  "np_max a = (case concat a of [] \<Rightarrow> Inl ZeroSizeReduction | x # xs \<Rightarrow> Inr (fold max xs x))"

text \<open>Python's \<^verbatim>\<open>min\<close> and \<^verbatim>\<open>max\<close> of a sequence.\<close>

definition py_min :: "real list \<Rightarrow> error + real" where
  "py_min v = (case v of [] \<Rightarrow> Inl ZeroSizeReduction | x # xs \<Rightarrow> Inr (fold min xs x))"

definition py_max :: "real list \<Rightarrow> error + real" where
  "py_max v = (case v of [] \<Rightarrow> Inl ZeroSizeReduction | x # xs \<Rightarrow> Inr (fold max xs x))"

text \<open>\<^verbatim>\<open>xs[i]\<close> for an index that is not negative.\<close>

definition getitem :: "'a list \<Rightarrow> nat \<Rightarrow> error + 'a" where
  "getitem xs i = (if i < length xs then Inr (xs ! i) else Inl IndexError)"

text \<open>
  \<^verbatim>\<open>range(start, stop, step)\<close> for a positive step (the program's step is the
  literal 10; Python raises on step 0, which the program never passes).
\<close>

function range_step :: "nat \<Rightarrow> nat \<Rightarrow> nat \<Rightarrow> nat list" where
  "range_step start stop step =
     (if 0 < step \<and> start < stop then start # range_step (start + step) stop step else [])"
  by pat_completeness auto
termination
  by (relation "measure (\<lambda>(start, stop, step). stop - start)") auto

declare range_step.simps [simp del]

subsection \<open>matplotlib: normalisation, colour maps, hexadecimal colours\<close>

text \<open>
  \<^verbatim>\<open>mpl.colors.Normalize(vmin, vmax)\<close> applied to a value, with the default
  \<^verbatim>\<open>clip=False\<close>: the result is 0 when \<open>vmin = vmax\<close>, the call raises ValueError when
  \<open>vmin > vmax\<close>, and otherwise the value is shifted by \<open>vmin\<close> and divided by
  \<open>vmax - vmin\<close>.
\<close>

definition Normalize :: "real \<Rightarrow> real \<Rightarrow> real \<Rightarrow> error + real" where
  "Normalize vmin vmax v =
     (if vmin = vmax then Inr 0
      else if vmin > vmax then Inl MinGreaterThanMax
      else Inr ((v - vmin) / (vmax - vmin)))"

type_synonym rgba = "real \<times> real \<times> real \<times> real"

record env =
  cmap_d :: "string \<Rightarrow> (real \<Rightarrow> rgba) option"  \<comment> \<open>matplotlib's registry of named colour maps\<close>
  fmt :: "real \<Rightarrow> string"                       \<comment> \<open>the text Python prints for a float\<close>
  script_dir :: string                           \<comment> \<open>\<^verbatim>\<open>os.path.dirname(__file__)\<close>\<close>

text \<open>\<^verbatim>\<open>mpl.cm.get_cmap(name)\<close>: the registered colour map, or ValueError.\<close>

definition get_cmap :: "env \<Rightarrow> string \<Rightarrow> error + (real \<Rightarrow> rgba)" where
  "get_cmap E name = (case cmap_d E name of None \<Rightarrow> Inl (UnknownColormap name) | Some f \<Rightarrow> Inr f)"

text \<open>
  \<^verbatim>\<open>matplotlib.transforms.nonsingular(vmin, vmax, expander)\<close> with its defaults
  \<^verbatim>\<open>tiny=1e-15\<close> and \<^verbatim>\<open>increasing=True\<close>, for finite arguments: a reversed pair is swapped;
  a pair whose larger magnitude is below \<^verbatim>\<open>(1e6 / tiny) * np.finfo(float).tiny\<close> becomes
  \<open>(-expander, expander)\<close>; a pair that is equal or nearly equal is widened by
  \<open>expander\<close> times the magnitude of each end; any other pair is returned as it is.
  The smallest normal double \<^verbatim>\<open>np.finfo(float).tiny\<close> is \<open>2\<close> to the power \<open>-1022\<close>
  (\<open>float_tiny\<close>); \<open>lo\<close> and \<open>hi\<close> are \<^verbatim>\<open>vmin\<close> and \<^verbatim>\<open>vmax\<close> after the swap.
\<close>

definition float_tiny :: real where
  "float_tiny = 1 / 2 ^ 1022"

definition nonsingular :: "real \<Rightarrow> real \<Rightarrow> real \<Rightarrow> real \<times> real" where
  "nonsingular vmin vmax expander =
     (let tiny = 1 / 10 ^ 15;
          lo = (if vmax < vmin then vmax else vmin);
          hi = (if vmax < vmin then vmin else vmax);
          maxabsvalue = max \<bar>lo\<bar> \<bar>hi\<bar>
      in if maxabsvalue < (10 ^ 6 / tiny) * float_tiny then (- expander, expander)
         else if hi - lo \<le> maxabsvalue * tiny then
           (if hi = 0 \<and> lo = 0 then (- expander, expander)
            else (lo - expander * \<bar>lo\<bar>, hi + expander * \<bar>hi\<bar>))
         else (lo, hi))"

text \<open>
  \<^verbatim>\<open>mpl.colorbar.ColorbarBase(cax, cmap=cmap, norm=norm, ...)\<close> is given the name of the
  colour map and the object \<^verbatim>\<open>norm\<close> of line 120. Its constructor resolves the name
  through the same registry and then, preparing the values of the bar, assigns
  \<^verbatim>\<open>nonsingular(norm.vmin, norm.vmax, expander=0.1)\<close> to \<^verbatim>\<open>norm.vmin, norm.vmax\<close>: the
  object that line 158 calls is changed in place. The second argument is the pair
  \<open>(vmin, vmax)\<close> of \<^verbatim>\<open>norm\<close> before the call, the result the pair after it. Drawing the
  bar is outside the model.
\<close>

definition ColorbarBase :: "env \<Rightarrow> string \<Rightarrow> real \<times> real \<Rightarrow> error + real \<times> real" where
  "ColorbarBase E name nrm =
     ebind (get_cmap E name) (\<lambda>f. Inr (nonsingular (fst nrm) (snd nrm) (1/10)))"

text \<open>\<^verbatim>\<open>np.round\<close>: to the nearest integer, a tie to the even one.\<close>

definition np_round :: "real \<Rightarrow> int" where
  "np_round x =
     (let f = \<lfloor>x\<rfloor>; d = x - of_int f
      in if d < 1/2 then f else if 1/2 < d then f + 1 else if even f then f else f + 1)"

definition hexdigit :: "nat \<Rightarrow> char" where
  "hexdigit d = ''0123456789abcdef'' ! (d mod 16)"

function hex_str :: "nat \<Rightarrow> string" where
  "hex_str n = (if n < 16 then [hexdigit n] else hex_str (n div 16) @ [hexdigit (n mod 16)])"
  by pat_completeness auto
termination
  by (relation "measure (\<lambda>n. n)") auto

declare hex_str.simps [simp del]

text \<open>\<^verbatim>\<open>format(n, "02x")\<close> for \<open>n \<ge> 0\<close>: lowercase hexadecimal, zero-padded to two.\<close>

definition format_02x :: "nat \<Rightarrow> string" where
  "format_02x n = (let s = hex_str n in replicate (2 - length s) (CHR ''0'') @ s)"

text \<open>
  \<^verbatim>\<open>mpl.colors.to_hex(c, keep_alpha=True)\<close> for a sequence of floats: \<^verbatim>\<open>to_rgba\<close> rejects
  a component outside 0-1, then every component is printed as
  \<^verbatim>\<open>format(int(np.round(val * 255)), "02x")\<close> after a leading \<^verbatim>\<open>#\<close>;
  \<open>channel\<close> is \<^verbatim>\<open>int(np.round(val * 255))\<close>.
\<close>

definition channel :: "real \<Rightarrow> nat" where
  "channel val = nat (np_round (val * 255))"

definition to_hex :: "real list \<Rightarrow> error + string" where
  "to_hex c =
     (if \<exists>val \<in> set c. val < 0 \<or> 1 < val then Inl RGBAOutOfRange
      else Inr (CHR ''#'' # concat (map (\<lambda>val. format_02x (channel val)) c)))"

text \<open>
  Lines 159-161: the components are passed in the order alpha, blue, green, red and
  the leading \<^verbatim>\<open>#\<close> is cut off by \<^verbatim>\<open>[1:]\<close>.
\<close>

definition kml_hex :: "rgba \<Rightarrow> error + string" where
  "kml_hex col =
     (case col of (r, g, b, a) \<Rightarrow> ebind (to_hex [a, b, g, r]) (\<lambda>h. Inr (drop 1 h)))"

subsection \<open>The text of a placemark\<close>

definition dygraph_file :: string where
  "dygraph_file = ''dygraph-combined.js''"

definition dot_file :: string where
  "dot_file = ''shaded_dot.png''"

definition sq :: string where "sq = [CHR 0x27]"   \<comment> \<open>a single quote\<close>
definition dq :: string where "dq = [CHR 0x22]"   \<comment> \<open>a double quote\<close>
definition bs :: string where "bs = [CHR 0x5C]"   \<comment> \<open>a backslash\<close>
definition nl :: string where "nl = [CHR 0x0A]"   \<comment> \<open>a line feed\<close>

text \<open>Lines 180-185: the start of \<^verbatim>\<open>js_data_string\<close>.\<close>

definition js_head :: string where
  "js_head =
     ''< ![CDATA['' @ nl @
     ''<script type='' @ sq @ ''text/javascript'' @ sq @ '' src='' @ sq @ dygraph_file @ sq @ ''></script>'' @ nl @
     ''<div id='' @ sq @ ''graphdiv'' @ sq @ ''> </div>'' @ nl @
     ''<script type='' @ sq @ ''text/javascript'' @ sq @ ''>'' @ nl @
     ''g = new Dygraph( document.getElementById('' @ sq @ ''graphdiv'' @ sq @ ''),'' @ nl @
     dq @ ''Date, Displacement'' @ bs @ ''n'' @ dq @ '' + '' @ nl"

text \<open>Line 191: one date and its displacement.\<close>

definition date_displacement_string :: "(real \<Rightarrow> string) \<Rightarrow> string \<Rightarrow> real \<Rightarrow> string" where
  "date_displacement_string f date displacement =
     dq @ date @ '', '' @ f displacement @ bs @ ''n'' @ dq @ '' + '' @ nl"

text \<open>Lines 195-201: the end of \<^verbatim>\<open>js_data_string\<close>, with the value range of the chart.\<close>

definition js_tail :: "(real \<Rightarrow> string) \<Rightarrow> real \<Rightarrow> real \<Rightarrow> string" where
  "js_tail f ts_min ts_max =
     dq @ dq @ '','' @ nl @
     ''{'' @ ''valueRange: ['' @ f ts_min @ '','' @ f ts_max @ ''],'' @
     ''ylabel: '' @ sq @ ''[cm]'' @ sq @ '','' @
     ''});'' @ ''</script>'' @ '']]>''"

text \<open>
  Lines 187-193: \<^verbatim>\<open>for j in range(len(dates))\<close>, reading \<^verbatim>\<open>dates[j]\<close> and
  \<^verbatim>\<open>ts[j][i]\<close>; the first argument list is \<^verbatim>\<open>dates[j:]\<close>.
\<close>

fun displacement_rows ::
  "(real \<Rightarrow> string) \<Rightarrow> string list \<Rightarrow> real list list \<Rightarrow> nat \<Rightarrow> nat \<Rightarrow> error + string" where
  "displacement_rows f [] ts j i = Inr []"
| "displacement_rows f (date # rest) ts j i =
     ebind (getitem ts j) (\<lambda>row.
     ebind (getitem row i) (\<lambda>displacement.
     ebind (displacement_rows f rest ts (Suc j) i) (\<lambda>s.
     Inr (date_displacement_string f date displacement @ s))))"

subsection \<open>The document\<close>

record placemark =
  color :: string          \<comment> \<open>\<^verbatim>\<open>Style/IconStyle/color\<close>\<close>
  scale :: real            \<comment> \<open>\<^verbatim>\<open>Style/IconStyle/scale\<close>\<close>
  icon_href :: string      \<comment> \<open>\<^verbatim>\<open>Style/IconStyle/Icon/href\<close>\<close>
  description :: string    \<comment> \<open>\<^verbatim>\<open>description\<close>\<close>
  coordinates :: string    \<comment> \<open>\<^verbatim>\<open>Point/coordinates\<close>\<close>

datatype element =
    ScreenOverlay string   \<comment> \<open>the legend; the argument is \<^verbatim>\<open>Icon/href\<close>\<close>
  | Placemark placemark

subsection \<open>\<^verbatim>\<open>main\<close>\<close>

record inputs =
  vlim :: "(real \<times> real) option"          \<comment> \<open>\<^verbatim>\<open>inps.vlim\<close>\<close>
  colormap :: "string option"              \<comment> \<open>\<^verbatim>\<open>inps.colormap\<close>\<close>
  out_name_base :: string                  \<comment> \<open>\<^verbatim>\<open>plot.auto_figure_title(...)\<close>\<close>
  times :: "string list"                   \<comment> \<open>\<^verbatim>\<open>ts_obj.times\<close>, each printed by \<^verbatim>\<open>strftime\<close>\<close>
  metadata :: meta                         \<comment> \<open>\<^verbatim>\<open>ts_obj.metadata\<close>\<close>
  vel_data :: "real option list list"      \<comment> \<open>\<^verbatim>\<open>readfile.read(vel_file)[0]\<close>\<close>
  ts_data :: "real list list list"         \<comment> \<open>\<^verbatim>\<open>readfile.read(ts_file)[0]\<close>\<close>

text \<open>The local variables of \<^verbatim>\<open>main\<close> that the loop reads.\<close>

record locals =
  dates :: "string list"
  vel :: "real list"
  ts :: "real list list"
  ts_min :: real
  ts_max :: real
  min_vel :: real
  max_vel :: real
  cmap :: string
  coords :: "(real \<times> real) list"

text \<open>Lines 98-103.\<close>

definition vel_limits :: "(real \<times> real) option \<Rightarrow> real list \<Rightarrow> error + real \<times> real" where
  "vel_limits vl v =
     (case vl of
        None \<Rightarrow> ebind (py_min v) (\<lambda>lo. ebind (py_max v) (\<lambda>hi. Inr (lo, hi)))
      | Some (lo, hi) \<Rightarrow> Inr (lo, hi))"

text \<open>Lines 83-114: everything computed before the colour bar is drawn.\<close>

definition read_data :: "inputs \<Rightarrow> error + locals" where
  "read_data inps =
     (let msk = valid_mask (vel_data inps) in
      ebind (bool_index (vel_data inps) msk) (\<lambda>sel.
      let v = map (\<lambda>x. x * 100) (reals sel) in
      ebind (bool_index_each (ts_data inps) msk) (\<lambda>tsel.
      let t = map (map (\<lambda>x. x * 100)) tsel in
      ebind (np_min t) (\<lambda>tmin.
      ebind (np_max t) (\<lambda>tmax.
      ebind (vel_limits (vlim inps) v) (\<lambda>(lo, hi).
      let name = (case colormap inps of None \<Rightarrow> ''jet'' | Some c \<Rightarrow> c) in
      ebind (bool_index (fst (get_lat_lon (metadata inps))) msk) (\<lambda>lats.
      ebind (bool_index (snd (get_lat_lon (metadata inps))) msk) (\<lambda>lons.
      Inr \<lparr> dates = times inps, vel = v, ts = t, ts_min = tmin, ts_max = tmax,
            min_vel = lo, max_vel = hi, cmap = name, coords = zip lats lons \<rparr>))))))))"

text \<open>
  Lines 153-207: the body of the loop, for the index \<open>i\<close>; \<open>nrm\<close> is the pair
  \<open>(vmin, vmax)\<close> that the object \<^verbatim>\<open>norm\<close> holds when the loop runs.
\<close>

definition build_placemark :: "env \<Rightarrow> locals \<Rightarrow> real \<times> real \<Rightarrow> nat \<Rightarrow> error + placemark" where
  "build_placemark E L nrm i =
     ebind (getitem (coords L) i) (\<lambda>(lat, lon).
     ebind (getitem (vel L) i) (\<lambda>v.
     ebind (get_cmap E (cmap L)) (\<lambda>cm.
     ebind (Normalize (fst nrm) (snd nrm) v) (\<lambda>x.
     ebind (kml_hex (cm x)) (\<lambda>hex.
     ebind (displacement_rows (fmt E) (dates L) (ts L) 0 i) (\<lambda>rows.
     Inr \<lparr> color = hex, scale = 1/2, icon_href = dot_file,
           description = js_head @ rows @ js_tail (fmt E) (ts_min L) (ts_max L),
           coordinates = fmt E lon @ '','' @ fmt E lat \<rparr>))))))"

text \<open>Lines 152-210: the loop over the given indices; an exception ends it.\<close>

fun build_placemarks ::
  "env \<Rightarrow> locals \<Rightarrow> real \<times> real \<Rightarrow> nat list \<Rightarrow> error + placemark list" where
  "build_placemarks E L nrm [] = Inr []"
| "build_placemarks E L nrm (i # rest) =
     ebind (build_placemark E L nrm i) (\<lambda>p.
     ebind (build_placemarks E L nrm rest) (\<lambda>ps. Inr (p # ps)))"

text \<open>Lines 215-239: what is written and run after the loop.\<close>

definition export_events :: "env \<Rightarrow> string \<Rightarrow> event list" where
  "export_events E base =
     (let cbar_png_file = base @ ''_cbar.png'';
          kml_file = base @ ''.kml'';
          kmz_file = base @ ''.kmz''
      in [System (''cp '' @ (script_dir E @ ''/utils/'' @ dot_file) @ '' '' @ dot_file),
          System (''cp '' @ (script_dir E @ ''/utils/'' @ dygraph_file) @ '' '' @ dygraph_file),
          WriteFile kml_file,
          System (''zip '' @ kmz_file @ '' '' @ kml_file @ '' '' @ cbar_png_file @ '' ''
                  @ dygraph_file @ '' '' @ dot_file),
          System (''rm '' @ kml_file @ '' '' @ cbar_png_file @ '' '' @ dygraph_file @ '' ''
                  @ dot_file)])"

text \<open>
  \<^verbatim>\<open>main\<close>: the outcome is the exception raised or the content of \<^verbatim>\<open>kml_document\<close>
  (the legend overlay, then the placemarks in the order of the loop), next to the
  files written and commands run up to that point. Line 120 makes \<^verbatim>\<open>norm\<close> with the pair
  \<open>(min_vel, max_vel)\<close>, line 121 hands it to the colour bar, and the loop calls it in
  the state the colour bar left it in.
\<close>

definition main :: "env \<Rightarrow> inputs \<Rightarrow> (error + element list) \<times> event list" where
  "main E inps =
     (let cbar_png_file = out_name_base inps @ ''_cbar.png'' in
      case read_data inps of
        Inl e \<Rightarrow> (Inl e, [])
      | Inr L \<Rightarrow>
          (case ColorbarBase E (cmap L) (min_vel L, max_vel L) of
             Inl e \<Rightarrow> (Inl e, [])
           | Inr nrm \<Rightarrow>
               (case build_placemarks E L nrm (range_step 0 (length (coords L)) 10) of
                  Inl e \<Rightarrow> (Inl e, [Savefig cbar_png_file])
                | Inr ps \<Rightarrow>
                    (Inr (ScreenOverlay cbar_png_file # map Placemark ps),
                     Savefig cbar_png_file # export_events E (out_name_base inps)))))"

text \<open>The placemarks of a document, in order.\<close>

fun placemarks :: "element list \<Rightarrow> placemark list" where
  "placemarks [] = []"
| "placemarks (ScreenOverlay h # es) = placemarks es"
| "placemarks (Placemark p # es) = p # placemarks es"

subsection \<open>Example inputs\<close>

text \<open>
  A stand-in environment: one colour map registered under the name \<^verbatim>\<open>jet\<close> (a ramp from
  blue to red, opaque, with the end colours outside [0, 1]), and a printer of reals
  that shows one decimal digit.
\<close>

function dec_str :: "nat \<Rightarrow> string" where
  "dec_str n =
     (if n < 10 then [''0123456789'' ! n]
      else dec_str (n div 10) @ [''0123456789'' ! (n mod 10)])"
  by pat_completeness auto
termination
  by (relation "measure (\<lambda>n. n)") auto

definition show_tenths :: "real \<Rightarrow> string" where
  "show_tenths x =
     (if x < 0 then ''-'' else []) @ dec_str (nat \<lfloor>\<bar>x\<bar>\<rfloor>) @ ''.''
       @ dec_str (nat \<lfloor>\<bar>x\<bar> * 10\<rfloor> mod 10)"

definition ramp :: "real \<Rightarrow> rgba" where
  "ramp x = (let c = max 0 (min 1 x) in (c, 0, 1 - c, 1))"

definition example_env :: env where
  "example_env =
     \<lparr> cmap_d = (\<lambda>name. if name = ''jet'' then Some ramp else None),
       fmt = show_tenths,
       script_dir = ''/opt/pysar'' \<rparr>"

text \<open>
  The 3 by 3 raster of the specification's scenario: origin (10, 20), steps -1 and 1,
  every velocity a number except the one in the centre; two dates.
\<close>

definition scenario_meta :: meta where
  "scenario_meta =
     \<lparr> LENGTH = 3, WIDTH = 3, Y_FIRST = 10, X_FIRST = 20, Y_STEP = -1, X_STEP = 1 \<rparr>"

definition scenario_inputs :: inputs where
  "scenario_inputs =
     \<lparr> vlim = None, colormap = None, out_name_base = ''ts'',
       times = [''2018-01-01'', ''2018-02-01''],
       metadata = scenario_meta,
       vel_data = [[Some (1/100), Some (2/100), Some (3/100)],
                   [Some (4/100), None, Some (5/100)],
                   [Some (6/100), Some (7/100), Some (8/100)]],
       ts_data = [[[0, 0, 0], [0, 0, 0], [0, 0, 0]],
                  [[1/1000, 2/1000, 3/1000], [4/1000, 5/1000, 6/1000], [7/1000, 8/1000, 9/1000]]] \<rparr>"

text \<open>A 3 by 4 raster with eleven valid cells and one date, and explicit limits.\<close>

definition strip_inputs :: inputs where
  "strip_inputs =
     \<lparr> vlim = Some (0, 2), colormap = Some ''jet'', out_name_base = ''s'',
       times = [''2018-01-01''],
       metadata = \<lparr> LENGTH = 3, WIDTH = 4, Y_FIRST = 9, X_FIRST = 0, Y_STEP = -2, X_STEP = 3 \<rparr>,
       vel_data = [[Some (1/100), None, Some (1/100), Some (1/100)],
                   [Some (1/100), Some (1/100), Some (1/100), Some (1/100)],
                   [Some (1/100), Some (1/100), Some (1/100), Some (2/100)]],
       ts_data = [[[1/100, 5, 1/100, 1/100],
                   [1/100, 1/100, 1/100, 1/100],
                   [1/100, 1/100, 1/100, 3/100]]] \<rparr>"

text \<open>
  A 1 by 2 raster with the limits given in the reverse order (\<^verbatim>\<open>--vlim 5 1\<close>); the
  first velocity is 0.05, the second 0.01.
\<close>

definition reversed_inputs :: inputs where
  "reversed_inputs =
     \<lparr> vlim = Some (5, 1), colormap = None, out_name_base = ''r'',
       times = [''2018-01-01''],
       metadata = \<lparr> LENGTH = 1, WIDTH = 2, Y_FIRST = 0, X_FIRST = 0, Y_STEP = -1, X_STEP = 1 \<rparr>,
       vel_data = [[Some (5/100), Some (1/100)]],
       ts_data = [[[0, 1/100]]] \<rparr>"

text \<open>A 2 by 2 raster whose velocity is not-a-number everywhere.\<close>

definition blank_inputs :: inputs where
  "blank_inputs =
     \<lparr> vlim = None, colormap = None, out_name_base = ''b'',
       times = [''2018-01-01''],
       metadata = \<lparr> LENGTH = 2, WIDTH = 2, Y_FIRST = 0, X_FIRST = 0, Y_STEP = -1, X_STEP = 1 \<rparr>,
       vel_data = [[None, None], [None, None]],
       ts_data = [[[0, 0], [0, 0]]] \<rparr>"


text \<open>The placemarks a run emitted, if it ended without an exception.\<close>

definition emitted :: "(error + element list) \<times> event list \<Rightarrow> placemark list option" where
  "emitted r = (case fst r of Inl e \<Rightarrow> None | Inr doc \<Rightarrow> Some (placemarks doc))"

section \<open>Properties\<close>

subsection \<open>The coordinate grids\<close>

lemma mgrid_axis_length: "length (mgrid_axis a b n) = n"
  by (simp add: mgrid_axis_def Let_def)

lemma mgrid_axis_nth:
  assumes "1 < n" and "k < n"
  shows "mgrid_axis a b n ! k = a + (b - a) * real k / real (n - 1)"
  using assms by (simp add: mgrid_axis_def Let_def)

lemma mgrid_axis_last:
  assumes "1 < n"
  shows "mgrid_axis a b n ! (n - 1) = b"
proof -
  have "real (n - 1) \<noteq> 0" using assms by simp
  then show ?thesis using assms by (simp add: mgrid_axis_nth)
qed

lemma mgrid2_fst_nth:
  assumes "r < an" and "c < bn"
  shows "fst (mgrid2 a0 a1 an b0 b1 bn) ! r ! c = mgrid_axis a0 a1 an ! r"
  using assms by (simp add: mgrid2_def mgrid_axis_length)

lemma mgrid2_snd_nth:
  assumes "r < an" and "c < bn"
  shows "snd (mgrid2 a0 a1 an b0 b1 bn) ! r ! c = mgrid_axis b0 b1 bn ! c"
  using assms by (simp add: mgrid2_def)

lemma mgrid2_shape:
  "length (fst (mgrid2 a0 a1 an b0 b1 bn)) = an"
  "length (snd (mgrid2 a0 a1 an b0 b1 bn)) = an"
  "r < an \<Longrightarrow> length (fst (mgrid2 a0 a1 an b0 b1 bn) ! r) = bn"
  "r < an \<Longrightarrow> length (snd (mgrid2 a0 a1 an b0 b1 bn) ! r) = bn"
  by (simp_all add: mgrid2_def mgrid_axis_length)

text \<open>
  C1. For metadata with more than one row and more than one column, \<^verbatim>\<open>get_lat_lon\<close>
  returns two grids of shape (LENGTH, WIDTH); the latitude of cell \<open>(r, c)\<close> is
  \<open>lat0 + (lat1 - lat0) * r / (LENGTH - 1)\<close> and its longitude
  \<open>lon0 + (lon1 - lon0) * c / (WIDTH - 1)\<close>, where \<open>lat1 = lat0 + Y_STEP * LENGTH\<close> and
  \<open>lon1 = lon0 + X_STEP * WIDTH\<close>. Cell \<open>(0, 0)\<close> is \<open>(lat0, lon0)\<close> and the opposite
  corner is \<open>(lat1, lon1)\<close>.
\<close>

theorem get_lat_lon_grid:
  assumes H: "1 < LENGTH m" and W: "1 < WIDTH m"
  shows "length (fst (get_lat_lon m)) = LENGTH m
       \<and> length (snd (get_lat_lon m)) = LENGTH m
       \<and> (\<forall>r < LENGTH m. length (fst (get_lat_lon m) ! r) = WIDTH m
                        \<and> length (snd (get_lat_lon m) ! r) = WIDTH m)
       \<and> (\<forall>r < LENGTH m. \<forall>c < WIDTH m.
            fst (get_lat_lon m) ! r ! c
              = Y_FIRST m + ((Y_FIRST m + Y_STEP m * real (LENGTH m)) - Y_FIRST m) * real r / real (LENGTH m - 1)
          \<and> snd (get_lat_lon m) ! r ! c
              = X_FIRST m + ((X_FIRST m + X_STEP m * real (WIDTH m)) - X_FIRST m) * real c / real (WIDTH m - 1))
       \<and> fst (get_lat_lon m) ! 0 ! 0 = Y_FIRST m
       \<and> snd (get_lat_lon m) ! 0 ! 0 = X_FIRST m
       \<and> fst (get_lat_lon m) ! (LENGTH m - 1) ! (WIDTH m - 1) = Y_FIRST m + Y_STEP m * real (LENGTH m)
       \<and> snd (get_lat_lon m) ! (LENGTH m - 1) ! (WIDTH m - 1) = X_FIRST m + X_STEP m * real (WIDTH m)"
proof -
  let ?lat1 = "Y_FIRST m + Y_STEP m * real (LENGTH m)"
  let ?lon1 = "X_FIRST m + X_STEP m * real (WIDTH m)"
  have g: "get_lat_lon m = mgrid2 (Y_FIRST m) ?lat1 (LENGTH m) (X_FIRST m) ?lon1 (WIDTH m)"
    by (simp add: get_lat_lon_def Let_def)
  have shape: "length (fst (get_lat_lon m)) = LENGTH m" "length (snd (get_lat_lon m)) = LENGTH m"
    by (simp_all add: g mgrid2_shape)
  have rows: "\<forall>r < LENGTH m. length (fst (get_lat_lon m) ! r) = WIDTH m
                        \<and> length (snd (get_lat_lon m) ! r) = WIDTH m"
    by (simp add: g mgrid2_shape)
  have cells: "\<forall>r < LENGTH m. \<forall>c < WIDTH m.
            fst (get_lat_lon m) ! r ! c
              = Y_FIRST m + (?lat1 - Y_FIRST m) * real r / real (LENGTH m - 1)
          \<and> snd (get_lat_lon m) ! r ! c
              = X_FIRST m + (?lon1 - X_FIRST m) * real c / real (WIDTH m - 1)"
    using H W by (simp add: g mgrid2_fst_nth mgrid2_snd_nth mgrid_axis_nth)
  have z: "0 < LENGTH m" "0 < WIDTH m" "LENGTH m - 1 < LENGTH m" "WIDTH m - 1 < WIDTH m"
    using H W by simp_all
  have c00: "fst (get_lat_lon m) ! 0 ! 0 = Y_FIRST m" "snd (get_lat_lon m) ! 0 ! 0 = X_FIRST m"
    using H W z by (simp_all add: g mgrid2_fst_nth mgrid2_snd_nth mgrid_axis_nth)
  have cHW: "fst (get_lat_lon m) ! (LENGTH m - 1) ! (WIDTH m - 1) = ?lat1"
            "snd (get_lat_lon m) ! (LENGTH m - 1) ! (WIDTH m - 1) = ?lon1"
    using z mgrid_axis_last [OF H, of "Y_FIRST m" ?lat1] mgrid_axis_last [OF W, of "X_FIRST m" ?lon1]
    by (simp_all add: g mgrid2_fst_nth mgrid2_snd_nth)
  show ?thesis using shape rows cells c00 cHW by blast
qed

text \<open>The scenario's metadata satisfies the hypotheses; its far corner is (7, 23).\<close>

theorem get_lat_lon_grid_witness:
  "1 < LENGTH scenario_meta \<and> 1 < WIDTH scenario_meta
   \<and> length (fst (get_lat_lon scenario_meta)) = 3
   \<and> fst (get_lat_lon scenario_meta) ! 0 ! 0 = 10
   \<and> snd (get_lat_lon scenario_meta) ! 0 ! 0 = 20
   \<and> fst (get_lat_lon scenario_meta) ! 2 ! 2 = 7
   \<and> snd (get_lat_lon scenario_meta) ! 2 ! 2 = 23"
  using get_lat_lon_grid [of scenario_meta] by (simp add: scenario_meta_def)

subsection \<open>Normalisation of the velocity\<close>

lemma Normalize_lt:
  "vmin < vmax \<Longrightarrow> Normalize vmin vmax v = Inr ((v - vmin) / (vmax - vmin))"
  by (simp add: Normalize_def)

subsection \<open>The indices of the loop\<close>

lemma range_step_length:
  "0 < s \<Longrightarrow> length (range_step a n s) = (n - a + (s - 1)) div s"
proof (induction a n s rule: range_step.induct)
  case (1 start stop step)
  show ?case
  proof (cases "start < stop")
    case True
    have len: "length (range_step start stop step) = Suc ((stop - (start + step) + (step - 1)) div step)"
      using 1 True by (simp add: range_step.simps [of start stop step])
    show ?thesis
    proof (cases "start + step \<le> stop")
      case True
      then have "stop - start + (step - 1) = (stop - (start + step) + (step - 1)) + step"
        by simp
      then have "(stop - start + (step - 1)) div step = Suc ((stop - (start + step) + (step - 1)) div step)"
        using 1(2) by (simp only: div_add_self2)
      then show ?thesis by (simp only: len)
    next
      case False
      then have lo: "step \<le> stop - start + (step - 1)" and hi: "stop - start + (step - 1) < 2 * step"
        using \<open>start < stop\<close> by simp_all
      have z: "stop - (start + step) = 0" using False by simp
      have r: "(stop - start + (step - 1)) div step = 1"
      proof -
        obtain d where d: "stop - start + (step - 1) = step + d" and "d < step"
          using lo hi by (metis add_diff_inverse_nat less_diff_conv2 mult_2 nat_add_left_cancel_less not_less)
        then have "(step + d) div step = 1" using 1(2) by simp
        then show ?thesis by (simp only: d)
      qed
      have l: "Suc ((stop - (start + step) + (step - 1)) div step) = 1"
        using z 1(2) by simp
      show ?thesis by (simp only: len l r)
    qed
  next
    case False
    then show ?thesis using 1(2) by (simp add: range_step.simps [of start stop step])
  qed
qed

lemma range_step_nth:
  "0 < s \<Longrightarrow> k < length (range_step a n s) \<Longrightarrow> range_step a n s ! k = a + k * s"
proof (induction a n s arbitrary: k rule: range_step.induct)
  case (1 start stop step)
  show ?case
  proof (cases "start < stop")
    case True
    then have eq: "range_step start stop step = start # range_step (start + step) stop step"
      using 1(2) by (simp add: range_step.simps [of start stop step])
    show ?thesis
    proof (cases k)
      case 0
      then show ?thesis by (simp add: eq)
    next
      case (Suc k')
      then have "k' < length (range_step (start + step) stop step)"
        using 1(3) eq by simp
      then have "range_step (start + step) stop step ! k' = start + step + k' * step"
        using 1(1) [of k'] 1(2) True by simp
      then show ?thesis using Suc by (simp add: eq)
    qed
  next
    case False
    then have "range_step start stop step = []"
      by (simp add: range_step.simps [of start stop step])
    then show ?thesis using 1(3) by simp
  qed
qed

lemma range_step_bound:
  "0 < s \<Longrightarrow> i \<in> set (range_step a n s) \<Longrightarrow> i < n"
proof (induction a n s rule: range_step.induct)
  case (1 start stop step)
  show ?case
  proof (cases "start < stop")
    case True
    then have eq: "range_step start stop step = start # range_step (start + step) stop step"
      using 1(2) by (simp add: range_step.simps [of start stop step])
    then show ?thesis using 1 True by auto
  next
    case False
    then have "range_step start stop step = []"
      by (simp add: range_step.simps [of start stop step])
    then show ?thesis using 1(3) by simp
  qed
qed

subsection \<open>The colour of a placemark\<close>

lemma np_round_near: "\<bar>of_int (np_round x) - x\<bar> \<le> 1/2"
proof -
  have "of_int \<lfloor>x\<rfloor> \<le> x" "x < of_int \<lfloor>x\<rfloor> + 1" by linarith+
  then show ?thesis by (auto simp: np_round_def Let_def)
qed

lemma np_round_cases: "np_round x = \<lfloor>x\<rfloor> \<or> np_round x = \<lfloor>x\<rfloor> + 1"
  by (simp add: np_round_def Let_def)

lemma np_round_range:
  assumes "0 \<le> x" and "x \<le> 255"
  shows "0 \<le> np_round x \<and> np_round x \<le> 255"
proof -
  have f0: "0 \<le> \<lfloor>x\<rfloor>" using assms by simp
  have f1: "\<lfloor>x\<rfloor> \<le> 255" using assms by (metis floor_mono floor_numeral)
  show ?thesis
  proof (cases "\<lfloor>x\<rfloor> = 255")
    case True
    then have "255 \<le> x" by (metis of_int_floor_le of_int_numeral)
    then have "x = 255" using assms by simp
    then show ?thesis by (simp add: np_round_def)
  next
    case False
    with f1 have "\<lfloor>x\<rfloor> < 255" by (rule le_neq_trans)
    then have "\<lfloor>x\<rfloor> + 1 \<le> 255" by (rule zless_imp_add1_zle)
    then show ?thesis using f0 f1 np_round_cases [of x] by auto
  qed
qed

lemma channel_le:
  assumes "0 \<le> v" and "v \<le> 1"
  shows "channel v \<le> 255"
proof -
  have "0 \<le> v * 255" "v * 255 \<le> 255" using assms by simp_all
  then have "np_round (v * 255) \<le> 255" using np_round_range by blast
  then show ?thesis by (simp add: channel_def)
qed

lemma channel_near:
  assumes "0 \<le> v" and "v \<le> 1"
  shows "\<bar>real (channel v) - v * 255\<bar> \<le> 1/2"
proof -
  have "0 \<le> v * 255" "v * 255 \<le> 255" using assms by simp_all
  then have "0 \<le> np_round (v * 255)" using np_round_range by blast
  then have "real (channel v) = of_int (np_round (v * 255))" by (simp add: channel_def)
  then show ?thesis using np_round_near [of "v * 255"] by simp
qed

lemma format_02x_byte:
  assumes "n \<le> 255"
  shows "format_02x n = [hexdigit (n div 16), hexdigit (n mod 16)]"
proof (cases "n < 16")
  case True
  then have "hex_str n = [hexdigit n]" by (simp add: hex_str.simps [of n])
  then show ?thesis using True by (simp add: format_02x_def hexdigit_def)
next
  case False
  then have d: "n div 16 < 16" using assms by simp
  have "hex_str n = hex_str (n div 16) @ [hexdigit (n mod 16)]"
    using False by (simp add: hex_str.simps [of n])
  also have "hex_str (n div 16) = [hexdigit (n div 16)]"
    using d by (simp add: hex_str.simps [of "n div 16"])
  finally show ?thesis by (simp add: format_02x_def)
qed

lemma hexdigit_lower: "hexdigit d \<in> set ''0123456789abcdef''"
proof -
  have "d mod 16 < length ''0123456789abcdef''" by simp
  then show ?thesis unfolding hexdigit_def by (rule nth_mem)
qed

lemma format_02x_lower:
  assumes "n \<le> 255" and "c \<in> set (format_02x n)"
  shows "c \<in> set ''0123456789abcdef''"
proof -
  have "c = hexdigit (n div 16) \<or> c = hexdigit (n mod 16)"
    using assms by (simp add: format_02x_byte)
  then show ?thesis using hexdigit_lower by blast
qed

lemma to_hex_abgr:
  assumes "\<forall>v \<in> set [a, b, g, r]. 0 \<le> v \<and> v \<le> 1"
  shows "to_hex [a, b, g, r] =
           Inr (CHR ''#'' # format_02x (channel a) @ format_02x (channel b)
                  @ format_02x (channel g) @ format_02x (channel r))"
proof -
  have "\<not> (\<exists>val \<in> set [a, b, g, r]. val < 0 \<or> 1 < val)"
    using assms by (auto simp: not_less)
  then show ?thesis by (simp add: to_hex_def)
qed

text \<open>
  C3. For a colour whose four components lie in [0, 1], the colour written into the
  style is a string of exactly 8 characters, all of them lowercase hexadecimal digits,
  made of the two digits of alpha, blue, green and red in this order: the first two
  characters are the digits of the alpha channel and the last two those of the red
  channel. Every channel is the component times 255 rounded to a nearest integer,
  between 0 and 255.
\<close>

theorem kml_hex_format:
  assumes "0 \<le> r \<and> r \<le> 1" and "0 \<le> g \<and> g \<le> 1" and "0 \<le> b \<and> b \<le> 1" and "0 \<le> a \<and> a \<le> 1"
  shows "\<exists>s. kml_hex (r, g, b, a) = Inr s
           \<and> length s = 8
           \<and> (\<forall>c \<in> set s. c \<in> set ''0123456789abcdef'')
           \<and> s = format_02x (channel a) @ format_02x (channel b)
                  @ format_02x (channel g) @ format_02x (channel r)
           \<and> take 2 s = [hexdigit (channel a div 16), hexdigit (channel a mod 16)]
           \<and> drop 6 s = [hexdigit (channel r div 16), hexdigit (channel r mod 16)]
           \<and> (\<forall>v \<in> {r, g, b, a}. channel v \<le> 255 \<and> \<bar>real (channel v) - v * 255\<bar> \<le> 1/2)"
proof -
  let ?s = "format_02x (channel a) @ format_02x (channel b)
              @ format_02x (channel g) @ format_02x (channel r)"
  have le: "channel a \<le> 255" "channel b \<le> 255" "channel g \<le> 255" "channel r \<le> 255"
    using assms by (simp_all add: channel_le)
  have digits: "?s = [hexdigit (channel a div 16), hexdigit (channel a mod 16),
                      hexdigit (channel b div 16), hexdigit (channel b mod 16),
                      hexdigit (channel g div 16), hexdigit (channel g mod 16),
                      hexdigit (channel r div 16), hexdigit (channel r mod 16)]"
    using le by (simp add: format_02x_byte)
  have "to_hex [a, b, g, r] = Inr (CHR ''#'' # ?s)"
    using assms by (intro to_hex_abgr) simp
  then have res: "kml_hex (r, g, b, a) = Inr ?s"
    by (simp add: kml_hex_def ebind_def)
  have len: "length ?s = 8" by (simp only: digits) simp
  have low: "\<forall>c \<in> set ?s. c \<in> set ''0123456789abcdef''"
  proof
    fix c assume "c \<in> set ?s"
    then have "c \<in> set (format_02x (channel a)) \<or> c \<in> set (format_02x (channel b))
             \<or> c \<in> set (format_02x (channel g)) \<or> c \<in> set (format_02x (channel r))"
      by (simp only: set_append Un_iff)
    then show "c \<in> set ''0123456789abcdef''"
      using le format_02x_lower by blast
  qed
  have first: "take 2 ?s = [hexdigit (channel a div 16), hexdigit (channel a mod 16)]"
    by (simp only: digits) simp
  have last2: "drop 6 ?s = [hexdigit (channel r div 16), hexdigit (channel r mod 16)]"
    by (simp only: digits) simp
  have near: "\<forall>v \<in> {r, g, b, a}. channel v \<le> 255 \<and> \<bar>real (channel v) - v * 255\<bar> \<le> 1/2"
  proof
    fix v assume "v \<in> {r, g, b, a}"
    then have "0 \<le> v" "v \<le> 1" using assms by auto
    then show "channel v \<le> 255 \<and> \<bar>real (channel v) - v * 255\<bar> \<le> 1/2"
      using channel_le channel_near by blast
  qed
  show ?thesis using res len low first last2 near by blast
qed

theorem kml_hex_format_witness:
  "kml_hex (1, 1/2, 0, 1/5) = Inr ''330080ff''"
proof -
  have "(0::real) \<le> 1 \<and> (1::real) \<le> 1" "(0::real) \<le> 1/2 \<and> (1/2::real) \<le> 1"
       "(0::real) \<le> 0 \<and> (0::real) \<le> 1" "(0::real) \<le> 1/5 \<and> (1/5::real) \<le> 1"
    by simp_all
  from kml_hex_format [OF this]
  show ?thesis
    by (simp add: channel_def np_round_def format_02x_byte hexdigit_def)
qed
subsection \<open>Reading \<^verbatim>\<open>main\<close> backwards from a successful run\<close>

lemma ebind_Inr: "ebind m f = Inr y \<longleftrightarrow> (\<exists>x. m = Inr x \<and> f x = Inr y)"
  by (cases m) (simp_all add: ebind_def)

lemma ebind_Inl: "m = Inl e \<Longrightarrow> ebind m f = Inl e"
  by (simp add: ebind_def)

lemma bool_index_Inr:
  "bool_index a msk = Inr xs \<longleftrightarrow> map length a = map length msk \<and> xs = masked_cells a msk"
  by (auto simp: bool_index_def)

lemma bool_index_each_Inr:
  "bool_index_each as msk = Inr rs \<Longrightarrow>
     rs = map (\<lambda>a. masked_cells a msk) as \<and> (\<forall>a \<in> set as. map length a = map length msk)"
proof (induction as arbitrary: rs)
  case Nil
  then show ?case by simp
next
  case (Cons a as)
  from Cons.prems obtain r rs' where r: "bool_index a msk = Inr r"
    and rs': "bool_index_each as msk = Inr rs'" and rs: "rs = r # rs'"
    by (auto simp: ebind_Inr)
  show ?case using Cons.IH [OF rs'] r rs by (simp add: bool_index_Inr)
qed

lemma filter_zip_length:
  "length xs = length ms \<Longrightarrow> length (filter snd (zip xs ms)) = length (filter (\<lambda>b. b) ms)"
  by (induction xs ms rule: list_induct2) simp_all

lemma masked_cells_length:
  assumes "map length a = map length msk"
  shows "length (masked_cells a msk) = length (filter (\<lambda>b. b) (concat msk))"
proof -
  have "length (concat a) = length (concat msk)"
    using assms by (simp add: length_concat)
  then show ?thesis by (simp add: masked_cells_def filter_zip_length)
qed

lemma filter_zip_self: "map fst (filter snd (zip xs (map P xs))) = filter P xs"
  by (induction xs) simp_all

lemma masked_cells_self: "masked_cells a (map (map P) a) = filter P (concat a)"
proof -
  have "concat (map (map P) a) = map P (concat a)" by (simp add: map_concat)
  then show ?thesis by (simp add: masked_cells_def filter_zip_self)
qed

lemma valid_cells: "masked_cells a (valid_mask a) = filter (\<lambda>x. \<not> isnan x) (concat a)"
  by (simp add: valid_mask_def masked_cells_self)

lemma reals_length: "\<forall>x \<in> set xs. \<not> isnan x \<Longrightarrow> length (reals xs) = length xs"
  by (induction xs) (auto simp: reals_def isnan_def List.map_filter_simps)

lemma reals_valid_length:
  "length (reals (masked_cells a (valid_mask a))) = length (masked_cells a (valid_mask a))"
  by (rule reals_length) (simp add: valid_cells)

lemma fold_min_Min: "fold min xs x = Min (set (x # xs))"
  by (simp only: Min.set_eq_fold)

lemma fold_max_Max: "fold max xs x = Max (set (x # xs))"
  by (simp only: Max.set_eq_fold)

lemma py_min_Inr: "py_min v = Inr m \<Longrightarrow> v \<noteq> [] \<and> m = Min (set v)"
proof -
  assume a: "py_min v = Inr m"
  then obtain x xs where v: "v = x # xs" and m: "m = fold min xs x"
    by (auto simp: py_min_def split: list.splits)
  show ?thesis by (simp only: v m fold_min_Min) simp
qed

lemma py_max_Inr: "py_max v = Inr m \<Longrightarrow> v \<noteq> [] \<and> m = Max (set v)"
proof -
  assume a: "py_max v = Inr m"
  then obtain x xs where v: "v = x # xs" and m: "m = fold max xs x"
    by (auto simp: py_max_def split: list.splits)
  show ?thesis by (simp only: v m fold_max_Max) simp
qed

lemma np_min_Inr: "np_min t = Inr m \<Longrightarrow> concat t \<noteq> [] \<and> m = Min (set (concat t))"
proof -
  assume "np_min t = Inr m"
  then have "py_min (concat t) = Inr m" by (simp add: np_min_def py_min_def)
  then show ?thesis by (rule py_min_Inr)
qed

lemma np_max_Inr: "np_max t = Inr m \<Longrightarrow> concat t \<noteq> [] \<and> m = Max (set (concat t))"
proof -
  assume "np_max t = Inr m"
  then have "py_max (concat t) = Inr m" by (simp add: np_max_def py_max_def)
  then show ?thesis by (rule py_max_Inr)
qed

lemma vel_limits_None:
  assumes "vel_limits None v = Inr (lo, hi)"
  shows "v \<noteq> [] \<and> lo = Min (set v) \<and> hi = Max (set v)"
proof -
  from assms have "py_min v = Inr lo" "py_max v = Inr hi"
    by (auto simp: vel_limits_def ebind_Inr)
  then show ?thesis using py_min_Inr py_max_Inr by blast
qed

lemma vel_limits_Some: "vel_limits (Some (lo, hi)) v = Inr (lo, hi)"
  by (simp add: vel_limits_def)

lemma read_data_Inr:
  assumes "read_data inps = Inr L"
  shows "dates L = times inps"
    and "vel L = map (\<lambda>x. x * 100) (reals (masked_cells (vel_data inps) (valid_mask (vel_data inps))))"
    and "ts L = map (\<lambda>a. map (\<lambda>x. x * 100) (masked_cells a (valid_mask (vel_data inps)))) (ts_data inps)"
    and "concat (ts L) \<noteq> []"
    and "ts_min L = Min (set (concat (ts L)))"
    and "ts_max L = Max (set (concat (ts L)))"
    and "vel_limits (vlim inps) (vel L) = Inr (min_vel L, max_vel L)"
    and "cmap L = (case colormap inps of None \<Rightarrow> ''jet'' | Some c \<Rightarrow> c)"
    and "coords L = zip (masked_cells (fst (get_lat_lon (metadata inps))) (valid_mask (vel_data inps)))
                        (masked_cells (snd (get_lat_lon (metadata inps))) (valid_mask (vel_data inps)))"
    and "map length (fst (get_lat_lon (metadata inps))) = map length (valid_mask (vel_data inps))"
    and "map length (snd (get_lat_lon (metadata inps))) = map length (valid_mask (vel_data inps))"
    and "\<forall>a \<in> set (ts_data inps). map length a = map length (valid_mask (vel_data inps))"
proof -
  let ?msk = "valid_mask (vel_data inps)"
  from assms obtain sel tsel tmin tmax lo hi lats lons where
        sel: "bool_index (vel_data inps) ?msk = Inr sel"
    and tsel: "bool_index_each (ts_data inps) ?msk = Inr tsel"
    and tmin: "np_min (map (map (\<lambda>x. x * 100)) tsel) = Inr tmin"
    and tmax: "np_max (map (map (\<lambda>x. x * 100)) tsel) = Inr tmax"
    and lim: "vel_limits (vlim inps) (map (\<lambda>x. x * 100) (reals sel)) = Inr (lo, hi)"
    and lats: "bool_index (fst (get_lat_lon (metadata inps))) ?msk = Inr lats"
    and lons: "bool_index (snd (get_lat_lon (metadata inps))) ?msk = Inr lons"
    and L: "L = \<lparr> dates = times inps, vel = map (\<lambda>x. x * 100) (reals sel),
                  ts = map (map (\<lambda>x. x * 100)) tsel, ts_min = tmin, ts_max = tmax,
                  min_vel = lo, max_vel = hi,
                  cmap = (case colormap inps of None \<Rightarrow> ''jet'' | Some c \<Rightarrow> c),
                  coords = zip lats lons \<rparr>"
    by (auto simp: read_data_def Let_def ebind_Inr split: prod.splits)
  have tsel': "tsel = map (\<lambda>a. masked_cells a ?msk) (ts_data inps)"
    and shapes: "\<forall>a \<in> set (ts_data inps). map length a = map length ?msk"
    using bool_index_each_Inr [OF tsel] by simp_all
  show "dates L = times inps" by (simp add: L)
  show "vel L = map (\<lambda>x. x * 100) (reals (masked_cells (vel_data inps) ?msk))"
    using sel by (simp add: L bool_index_Inr)
  show "ts L = map (\<lambda>a. map (\<lambda>x. x * 100) (masked_cells a ?msk)) (ts_data inps)"
    by (simp add: L tsel')
  show "concat (ts L) \<noteq> []" using np_min_Inr [OF tmin] by (simp add: L)
  show "ts_min L = Min (set (concat (ts L)))" using np_min_Inr [OF tmin] by (simp add: L)
  show "ts_max L = Max (set (concat (ts L)))" using np_max_Inr [OF tmax] by (simp add: L)
  show "vel_limits (vlim inps) (vel L) = Inr (min_vel L, max_vel L)" using lim by (simp add: L)
  show "cmap L = (case colormap inps of None \<Rightarrow> ''jet'' | Some c \<Rightarrow> c)" by (simp add: L)
  show "coords L = zip (masked_cells (fst (get_lat_lon (metadata inps))) ?msk)
                        (masked_cells (snd (get_lat_lon (metadata inps))) ?msk)"
    using lats lons by (simp add: L bool_index_Inr)
  show "map length (fst (get_lat_lon (metadata inps))) = map length ?msk"
    using lats by (simp add: bool_index_Inr)
  show "map length (snd (get_lat_lon (metadata inps))) = map length ?msk"
    using lons by (simp add: bool_index_Inr)
  show "\<forall>a \<in> set (ts_data inps). map length a = map length ?msk" by (rule shapes)
qed

lemma read_data_lengths:
  assumes "read_data inps = Inr L"
  shows "length (coords L) = length (filter (\<lambda>b. b) (concat (valid_mask (vel_data inps))))"
    and "length (vel L) = length (filter (\<lambda>b. b) (concat (valid_mask (vel_data inps))))"
proof -
  let ?msk = "valid_mask (vel_data inps)"
  let ?n = "length (filter (\<lambda>b. b) (concat ?msk))"
  have a: "length (masked_cells (fst (get_lat_lon (metadata inps))) ?msk) = ?n"
    using read_data_Inr(10) [OF assms] by (rule masked_cells_length)
  have b: "length (masked_cells (snd (get_lat_lon (metadata inps))) ?msk) = ?n"
    using read_data_Inr(11) [OF assms] by (rule masked_cells_length)
  show "length (coords L) = ?n"
    by (simp add: read_data_Inr(9) [OF assms] a b)
  have "map length (vel_data inps) = map length ?msk" by (simp add: valid_mask_def)
  then have "length (masked_cells (vel_data inps) ?msk) = ?n" by (rule masked_cells_length)
  then show "length (vel L) = ?n"
    by (simp add: read_data_Inr(2) [OF assms] reals_valid_length)
qed

lemma getitem_Inr: "getitem xs i = Inr x \<longleftrightarrow> i < length xs \<and> x = xs ! i"
  by (auto simp: getitem_def)

lemma get_cmap_Inr: "get_cmap E name = Inr f \<longleftrightarrow> cmap_d E name = Some f"
  by (simp add: get_cmap_def split: option.splits)

lemma displacement_rows_Inr:
  "displacement_rows f ds t j i = Inr s \<Longrightarrow>
     s = concat (map (\<lambda>(d, row). date_displacement_string f d (row ! i)) (zip ds (drop j t)))
     \<and> length ds \<le> length (drop j t)"
proof (induction ds arbitrary: j s)
  case Nil
  then show ?case by simp
next
  case (Cons d ds)
  from Cons.prems obtain s' where j: "j < length t" and i: "i < length (t ! j)"
    and s': "displacement_rows f ds t (Suc j) i = Inr s'"
    and s: "s = date_displacement_string f d (t ! j ! i) @ s'"
    by (auto simp: ebind_Inr getitem_Inr)
  have dr: "drop j t = t ! j # drop (Suc j) t"
    using j by (simp add: Cons_nth_drop_Suc)
  show ?case using Cons.IH [OF s'] by (simp add: dr s)
qed

lemma nonsingular_cases:
  fixes a b e :: real
  defines "lo \<equiv> (if b < a then b else a)" and "hi \<equiv> (if b < a then a else b)"
  shows "nonsingular a b e =
           (if max \<bar>lo\<bar> \<bar>hi\<bar> < (10 ^ 6 / (1 / 10 ^ 15)) * float_tiny then (- e, e)
            else if hi - lo \<le> max \<bar>lo\<bar> \<bar>hi\<bar> * (1 / 10 ^ 15) then
              (if hi = 0 \<and> lo = 0 then (- e, e) else (lo - e * \<bar>lo\<bar>, hi + e * \<bar>hi\<bar>))
            else (lo, hi))"
  by (simp only: nonsingular_def Let_def lo_def hi_def)

lemma nonsingular_ordered:
  assumes "0 < e"
  shows "fst (nonsingular a b e) < snd (nonsingular a b e)"
proof -
  define lo where "lo = (if b < a then b else a)"
  define hi where "hi = (if b < a then a else b)"
  define m where "m = max \<bar>lo\<bar> \<bar>hi\<bar>"
  define T :: real where "T = (10 ^ 6 / (1 / 10 ^ 15)) * float_tiny"
  define t :: real where "t = 1 / 10 ^ 15"
  have le: "lo \<le> hi" by (simp add: lo_def hi_def)
  have m0: "0 \<le> m" by (simp add: m_def)
  have t0: "0 \<le> t" by (simp add: t_def)
  have ns: "nonsingular a b e =
              (if m < T then (- e, e)
               else if hi - lo \<le> m * t then
                 (if hi = 0 \<and> lo = 0 then (- e, e) else (lo - e * \<bar>lo\<bar>, hi + e * \<bar>hi\<bar>))
               else (lo, hi))"
    unfolding lo_def hi_def m_def T_def t_def by (rule nonsingular_cases)
  show ?thesis
  proof (cases "m < T")
    case True
    then have "nonsingular a b e = (- e, e)" by (simp add: ns)
    then show ?thesis using assms by simp
  next
    case big: False
    show ?thesis
    proof (cases "hi - lo \<le> m * t")
      case near: True
      show ?thesis
      proof (cases "hi = 0 \<and> lo = 0")
        case True
        then show ?thesis using assms big near by (simp add: ns)
      next
        case False
        then have "0 < \<bar>lo\<bar> + \<bar>hi\<bar>" by auto
        then have "0 < e * (\<bar>lo\<bar> + \<bar>hi\<bar>)" using assms by simp
        then have lt: "lo - e * \<bar>lo\<bar> < hi + e * \<bar>hi\<bar>"
          using le by (simp add: algebra_simps)
        have "nonsingular a b e = (lo - e * \<bar>lo\<bar>, hi + e * \<bar>hi\<bar>)"
          using big near False by (auto simp: ns)
        then show ?thesis using lt by simp
      qed
    next
      case False
      have "0 \<le> m * t" using m0 t0 by simp
      then have lt: "lo < hi" using False by linarith
      have "nonsingular a b e = (lo, hi)" using big False by (simp add: ns)
      then show ?thesis using lt by simp
    qed
  qed
qed

lemma nonsingular_unchanged:
  assumes "lo < hi"
    and "(10 ^ 6 / (1 / 10 ^ 15)) * float_tiny \<le> max \<bar>lo\<bar> \<bar>hi\<bar>"
    and "max \<bar>lo\<bar> \<bar>hi\<bar> * (1 / 10 ^ 15) < hi - lo"
  shows "nonsingular lo hi e = (lo, hi)"
proof -
  have s: "\<not> hi < lo" using assms(1) by simp
  have b: "\<not> max \<bar>lo\<bar> \<bar>hi\<bar> < (10 ^ 6 / (1 / 10 ^ 15)) * float_tiny"
    using assms(2) by (simp only: not_less)
  have n: "\<not> hi - lo \<le> max \<bar>lo\<bar> \<bar>hi\<bar> * (1 / 10 ^ 15)"
    using assms(3) by (simp only: not_le)
  show ?thesis by (simp only: nonsingular_cases s b n if_False)
qed

lemma ColorbarBase_Inr:
  "ColorbarBase E name nrm = Inr r \<longleftrightarrow>
     cmap_d E name \<noteq> None \<and> r = nonsingular (fst nrm) (snd nrm) (1/10)"
  by (auto simp: ColorbarBase_def ebind_Inr get_cmap_Inr)

lemma Normalize_ordered:
  "lo < hi \<Longrightarrow> Normalize lo hi v = Inr x \<longleftrightarrow> x = (v - lo) / (hi - lo)"
  by (auto simp: Normalize_def)

lemma build_placemark_Inr:
  assumes "build_placemark E L nrm i = Inr p"
  shows "\<exists>cm x. i < length (coords L) \<and> i < length (vel L)
           \<and> cmap_d E (cmap L) = Some cm
           \<and> Normalize (fst nrm) (snd nrm) (vel L ! i) = Inr x
           \<and> kml_hex (cm x) = Inr (color p)
           \<and> scale p = 1/2 \<and> icon_href p = dot_file
           \<and> description p =
                js_head
                @ concat (map (\<lambda>(d, row). [CHR 0x22] @ d @ '', '' @ fmt E (row ! i)
                                            @ [CHR 0x5C] @ ''n'' @ [CHR 0x22] @ '' + '' @ [CHR 0x0A])
                              (zip (dates L) (ts L)))
                @ [CHR 0x22, CHR 0x22] @ '','' @ [CHR 0x0A]
                @ ''{valueRange: ['' @ fmt E (ts_min L) @ '','' @ fmt E (ts_max L) @ ''],''
                @ ''ylabel: '' @ [CHR 0x27] @ ''[cm]'' @ [CHR 0x27] @ '',''
                @ ''});</script>]]>''
           \<and> length (dates L) \<le> length (ts L)
           \<and> coordinates p = fmt E (snd (coords L ! i)) @ '','' @ fmt E (fst (coords L ! i))"
proof -
  from assms obtain lat lon v cm x hex rows where
        c: "getitem (coords L) i = Inr (lat, lon)"
    and v: "getitem (vel L) i = Inr v"
    and cm: "get_cmap E (cmap L) = Inr cm"
    and x: "Normalize (fst nrm) (snd nrm) v = Inr x"
    and hex: "kml_hex (cm x) = Inr hex"
    and rows: "displacement_rows (fmt E) (dates L) (ts L) 0 i = Inr rows"
    and p: "p = \<lparr> color = hex, scale = 1/2, icon_href = dot_file,
                  description = js_head @ rows @ js_tail (fmt E) (ts_min L) (ts_max L),
                  coordinates = fmt E lon @ '','' @ fmt E lat \<rparr>"
    by (auto simp: build_placemark_def ebind_Inr split: prod.splits)
  have r: "rows = concat (map (\<lambda>(d, row). date_displacement_string (fmt E) d (row ! i))
                              (zip (dates L) (ts L)))"
    and n: "length (dates L) \<le> length (ts L)"
    using displacement_rows_Inr [OF rows] by simp_all
  have r': "rows = concat (map (\<lambda>(d, row). [CHR 0x22] @ d @ '', '' @ fmt E (row ! i)
                                            @ [CHR 0x5C] @ ''n'' @ [CHR 0x22] @ '' + '' @ [CHR 0x0A])
                              (zip (dates L) (ts L)))"
    by (simp add: r date_displacement_string_def dq_def bs_def nl_def)
  have tl: "js_tail (fmt E) (ts_min L) (ts_max L)
              = [CHR 0x22, CHR 0x22] @ '','' @ [CHR 0x0A]
                @ ''{valueRange: ['' @ fmt E (ts_min L) @ '','' @ fmt E (ts_max L) @ ''],''
                @ ''ylabel: '' @ [CHR 0x27] @ ''[cm]'' @ [CHR 0x27] @ '',''
                @ ''});</script>]]>''"
    by (simp add: js_tail_def dq_def sq_def nl_def)
  have d: "description p = js_head @ rows @ js_tail (fmt E) (ts_min L) (ts_max L)"
    by (simp add: p)
  have ci: "i < length (coords L)" "coords L ! i = (lat, lon)"
    using c by (simp_all add: getitem_Inr)
  have vi: "i < length (vel L)" "v = vel L ! i"
    using v by (simp_all add: getitem_Inr)
  have cm': "cmap_d E (cmap L) = Some cm" using cm by (simp add: get_cmap_Inr)
  have x': "Normalize (fst nrm) (snd nrm) (vel L ! i) = Inr x" using x vi by simp
  have k: "kml_hex (cm x) = Inr (color p)" using hex by (simp add: p)
  have rest: "scale p = 1/2" "icon_href p = dot_file"
     "coordinates p = fmt E (snd (coords L ! i)) @ '','' @ fmt E (fst (coords L ! i))"
    by (simp_all add: p ci)
  have d': "description p =
                js_head
                @ concat (map (\<lambda>(d, row). [CHR 0x22] @ d @ '', '' @ fmt E (row ! i)
                                            @ [CHR 0x5C] @ ''n'' @ [CHR 0x22] @ '' + '' @ [CHR 0x0A])
                              (zip (dates L) (ts L)))
                @ [CHR 0x22, CHR 0x22] @ '','' @ [CHR 0x0A]
                @ ''{valueRange: ['' @ fmt E (ts_min L) @ '','' @ fmt E (ts_max L) @ ''],''
                @ ''ylabel: '' @ [CHR 0x27] @ ''[cm]'' @ [CHR 0x27] @ '',''
                @ ''});</script>]]>''"
    by (simp only: d tl r' [symmetric])
  note facts = ci(1) vi(1) cm' x' k rest(1,2) d' n rest(3)
  show ?thesis by (intro exI [of _ cm] exI [of _ x] conjI facts)
qed

lemma build_placemarks_Inr:
  "build_placemarks E L nrm idx = Inr ps \<Longrightarrow>
     length ps = length idx
     \<and> (\<forall>k < length idx. build_placemark E L nrm (idx ! k) = Inr (ps ! k))"
proof (induction idx arbitrary: ps)
  case Nil
  then show ?case by simp
next
  case (Cons i idx)
  from Cons.prems obtain p ps' where p: "build_placemark E L nrm i = Inr p"
    and ps': "build_placemarks E L nrm idx = Inr ps'" and ps: "ps = p # ps'"
    by (auto simp: ebind_Inr)
  show ?case using Cons.IH [OF ps'] p by (auto simp: ps nth_Cons split: nat.splits)
qed

lemma placemarks_map: "placemarks (map Placemark ps) = ps"
  by (induction ps) simp_all

lemma main_Inr:
  assumes "main E inps = (Inr doc, tr)"
  shows "\<exists>L. read_data inps = Inr L
           \<and> cmap_d E (cmap L) \<noteq> None
           \<and> build_placemarks E L (nonsingular (min_vel L) (max_vel L) (1/10))
                (range_step 0 (length (coords L)) 10) = Inr (placemarks doc)
           \<and> doc = ScreenOverlay (out_name_base inps @ ''_cbar.png'') # map Placemark (placemarks doc)
           \<and> tr = Savefig (out_name_base inps @ ''_cbar.png'') # export_events E (out_name_base inps)"
proof -
  from assms obtain L where L: "read_data inps = Inr L"
    by (auto simp: main_def Let_def split: sum.splits)
  from assms L obtain nrm where u: "ColorbarBase E (cmap L) (min_vel L, max_vel L) = Inr nrm"
    by (auto simp: main_def Let_def split: sum.splits)
  have reg: "cmap_d E (cmap L) \<noteq> None"
    and nrm: "nrm = nonsingular (min_vel L) (max_vel L) (1/10)"
    using u by (simp_all add: ColorbarBase_Inr)
  from assms L u obtain ps where
        ps: "build_placemarks E L nrm (range_step 0 (length (coords L)) 10) = Inr ps"
    and doc: "doc = ScreenOverlay (out_name_base inps @ ''_cbar.png'') # map Placemark ps"
    and tr: "tr = Savefig (out_name_base inps @ ''_cbar.png'') # export_events E (out_name_base inps)"
    by (auto simp: main_def Let_def split: sum.splits)
  have pm: "placemarks doc = ps" by (simp add: doc placemarks_map)
  show ?thesis using L reg ps doc tr pm by (simp add: nrm)
qed

text \<open>The run of the loop: one placemark for every tenth valid pixel.\<close>

lemma main_placemarks:
  assumes "main E inps = (Inr doc, tr)"
  shows "\<exists>L. read_data inps = Inr L
           \<and> length (placemarks doc) = (length (coords L) + 9) div 10
           \<and> (\<forall>k < length (placemarks doc).
                 10 * k < length (coords L)
               \<and> build_placemark E L (nonsingular (min_vel L) (max_vel L) (1/10)) (10 * k)
                   = Inr (placemarks doc ! k))"
proof -
  from main_Inr [OF assms] obtain L where L: "read_data inps = Inr L"
    and ps: "build_placemarks E L (nonsingular (min_vel L) (max_vel L) (1/10))
               (range_step 0 (length (coords L)) 10) = Inr (placemarks doc)"
    by blast
  let ?nrm = "nonsingular (min_vel L) (max_vel L) (1/10)"
  let ?idx = "range_step 0 (length (coords L)) 10"
  have len: "length (placemarks doc) = length ?idx"
    and each: "\<forall>k < length ?idx. build_placemark E L ?nrm (?idx ! k) = Inr (placemarks doc ! k)"
    using build_placemarks_Inr [OF ps] by simp_all
  have n: "length ?idx = (length (coords L) + 9) div 10"
    by (simp add: range_step_length)
  have at: "\<And>k. k < length ?idx \<Longrightarrow> ?idx ! k = 10 * k"
    by (simp add: range_step_nth)
  have inb: "\<And>k. k < length ?idx \<Longrightarrow> 10 * k < length (coords L)"
  proof -
    fix k assume k: "k < length ?idx"
    then have "?idx ! k \<in> set ?idx" by (rule nth_mem)
    then have "?idx ! k < length (coords L)" by (rule range_step_bound [rotated]) simp
    then show "10 * k < length (coords L)" using at [OF k] by simp
  qed
  have "\<forall>k < length (placemarks doc).
          10 * k < length (coords L) \<and> build_placemark E L ?nrm (10 * k) = Inr (placemarks doc ! k)"
  proof (intro allI impI)
    fix k assume "k < length (placemarks doc)"
    then have k: "k < length ?idx" using len by simp
    have "build_placemark E L ?nrm (?idx ! k) = Inr (placemarks doc ! k)"
      using each k by blast
    then have "build_placemark E L ?nrm (10 * k) = Inr (placemarks doc ! k)"
      by (simp only: at [OF k])
    then show "10 * k < length (coords L) \<and> build_placemark E L ?nrm (10 * k) = Inr (placemarks doc ! k)"
      using inb [OF k] by simp
  qed
  moreover have "length (placemarks doc) = (length (coords L) + 9) div 10" using len n by simp
  ultimately show ?thesis using L by blast
qed

lemma bool_index_each_shapes:
  "\<forall>a \<in> set as. map length a = map length msk \<Longrightarrow>
     bool_index_each as msk = Inr (map (\<lambda>a. masked_cells a msk) as)"
  by (induction as) (simp_all add: bool_index_def ebind_def)

lemma valid_mask_shape: "map length (valid_mask a) = map length a"
  by (simp add: valid_mask_def)

subsection \<open>Runs that end without an exception\<close>

lemma mgrid2_row_lengths:
  "map length (fst (mgrid2 a0 a1 an b0 b1 bn)) = replicate an bn"
  "map length (snd (mgrid2 a0 a1 an b0 b1 bn)) = replicate an bn"
  by (simp_all add: mgrid2_def mgrid_axis_length map_replicate_const comp_def)

lemma get_lat_lon_row_lengths:
  "map length (fst (get_lat_lon m)) = replicate (LENGTH m) (WIDTH m)"
  "map length (snd (get_lat_lon m)) = replicate (LENGTH m) (WIDTH m)"
  by (simp_all add: get_lat_lon_def Let_def mgrid2_row_lengths)

lemma py_min_le_py_max:
  assumes "v \<noteq> []"
  shows "\<exists>lo hi. vel_limits None v = Inr (lo, hi) \<and> lo \<le> hi"
proof -
  from assms obtain x xs where v: "v = x # xs" by (cases v) auto
  have "fold min xs x = Min (set (x # xs))" "fold max xs x = Max (set (x # xs))"
    by (rule fold_min_Min, rule fold_max_Max)
  moreover have "Min (set (x # xs)) \<le> Max (set (x # xs))"
  proof -
    have "Min (set (x # xs)) \<le> x" by (rule Min_le) simp_all
    also have "x \<le> Max (set (x # xs))" by (rule Max_ge) simp_all
    finally show ?thesis .
  qed
  ultimately show ?thesis
    by (simp add: v vel_limits_def py_min_def py_max_def ebind_def)
qed

lemma np_min_succeeds: "concat t \<noteq> [] \<Longrightarrow> \<exists>m. np_min t = Inr m"
  by (cases "concat t") (simp_all add: np_min_def)

lemma np_max_succeeds: "concat t \<noteq> [] \<Longrightarrow> \<exists>m. np_max t = Inr m"
  by (cases "concat t") (simp_all add: np_max_def)

lemma displacement_rows_succeeds:
  assumes "\<forall>row \<in> set t. i < length row"
  shows "j + length ds \<le> length t \<Longrightarrow> \<exists>s. displacement_rows f ds t j i = Inr s"
proof (induction ds arbitrary: j)
  case Nil
  then show ?case by simp
next
  case (Cons d ds)
  then have j: "j < length t" and rest: "Suc j + length ds \<le> length t" by simp_all
  then have "i < length (t ! j)" using assms by simp
  moreover obtain s where "displacement_rows f ds t (Suc j) i = Inr s"
    using Cons.IH [OF rest] by blast
  ultimately show ?case using j by (simp add: getitem_def ebind_def)
qed

lemma kml_hex_succeeds:
  assumes "case col of (r, g, b, a) \<Rightarrow> 0 \<le> r \<and> r \<le> 1 \<and> 0 \<le> g \<and> g \<le> 1 \<and> 0 \<le> b \<and> b \<le> 1 \<and> 0 \<le> a \<and> a \<le> 1"
  shows "\<exists>h. kml_hex col = Inr h"
proof -
  obtain r g b a where col: "col = (r, g, b, a)" by (cases col) auto
  then have "\<forall>v \<in> set [a, b, g, r]. 0 \<le> v \<and> v \<le> 1" using assms by simp
  then show ?thesis by (simp add: col kml_hex_def to_hex_abgr ebind_def)
qed

lemma build_placemarks_succeeds:
  "\<forall>i \<in> set idx. \<exists>p. build_placemark E L nrm i = Inr p \<Longrightarrow>
     \<exists>ps. build_placemarks E L nrm idx = Inr ps"
  by (induction idx) (auto simp: ebind_def)

text \<open>
  A run ends without an exception, having written the legend and the archive, when the
  velocity has the shape of the metadata and the time series the shape of the velocity,
  some velocity is a number, there is a date and no more dates than slabs, and the
  colour map is registered and returns components in [0, 1]. The limits need not be in
  order: the colour bar has put them in order before the loop runs.
\<close>

lemma main_succeeds:
  assumes vshape: "map length (vel_data inps)
                     = replicate (LENGTH (metadata inps)) (WIDTH (metadata inps))"
    and tshape: "\<forall>a \<in> set (ts_data inps). map length a = map length (vel_data inps)"
    and valid: "\<exists>row \<in> set (vel_data inps). \<exists>x \<in> set row. \<not> isnan x"
    and slabs: "ts_data inps \<noteq> []" "length (times inps) \<le> length (ts_data inps)"
    and reg: "cmap_d E (case colormap inps of None \<Rightarrow> ''jet'' | Some c \<Rightarrow> c) = Some cm"
    and col: "\<forall>x. case cm x of (r, g, b, a) \<Rightarrow>
                 0 \<le> r \<and> r \<le> 1 \<and> 0 \<le> g \<and> g \<le> 1 \<and> 0 \<le> b \<and> b \<le> 1 \<and> 0 \<le> a \<and> a \<le> 1"
  shows "\<exists>doc. main E inps
           = (Inr doc, Savefig (out_name_base inps @ ''_cbar.png'')
                         # export_events E (out_name_base inps))"
proof -
  let ?msk = "valid_mask (vel_data inps)"
  let ?n = "length (filter (\<lambda>b. b) (concat ?msk))"
  let ?v = "map (\<lambda>x. x * 100) (reals (masked_cells (vel_data inps) ?msk))"
  let ?t = "map (map (\<lambda>x. x * 100)) (map (\<lambda>a. masked_cells a ?msk) (ts_data inps))"
  let ?lats = "masked_cells (fst (get_lat_lon (metadata inps))) ?msk"
  let ?lons = "masked_cells (snd (get_lat_lon (metadata inps))) ?msk"
  have ms: "map length ?msk = map length (vel_data inps)" by (rule valid_mask_shape)
  have npos: "0 < ?n"
  proof -
    from valid obtain row x where "row \<in> set (vel_data inps)" "x \<in> set row" "\<not> isnan x" by blast
    then have "True \<in> set (concat ?msk)" by (force simp: valid_mask_def)
    then have "filter (\<lambda>b. b) (concat ?msk) \<noteq> []" by (simp add: filter_empty_conv) blast
    then show ?thesis by simp
  qed
  have sel: "bool_index (vel_data inps) ?msk = Inr (masked_cells (vel_data inps) ?msk)"
    by (simp add: bool_index_def ms)
  have vlen: "length ?v = ?n"
    by (simp add: reals_valid_length masked_cells_length ms)
  have tsel: "bool_index_each (ts_data inps) ?msk = Inr (map (\<lambda>a. masked_cells a ?msk) (ts_data inps))"
    using tshape by (intro bool_index_each_shapes) (simp add: ms)
  have rows: "\<forall>row \<in> set ?t. length row = ?n"
    using tshape by (auto simp: masked_cells_length ms)
  have tne: "concat ?t \<noteq> []"
  proof -
    from slabs(1) obtain row where "row \<in> set ?t" by (cases "ts_data inps") auto
    moreover from this have "row \<noteq> []" using rows npos by auto
    ultimately show ?thesis by auto
  qed
  obtain tmin where tmin: "np_min ?t = Inr tmin"
    using np_min_succeeds [OF tne] by blast
  obtain tmax where tmax: "np_max ?t = Inr tmax"
    using np_max_succeeds [OF tne] by blast
  obtain lo hi where lh: "vel_limits (vlim inps) ?v = Inr (lo, hi)"
  proof (cases "vlim inps")
    case None
    have "?v \<noteq> []" using vlen npos by auto
    then show ?thesis using py_min_le_py_max that None by metis
  next
    case (Some p)
    then show ?thesis using that by (cases p) (auto simp: vel_limits_def)
  qed
  have gs: "map length (fst (get_lat_lon (metadata inps))) = map length ?msk"
           "map length (snd (get_lat_lon (metadata inps))) = map length ?msk"
    by (simp_all add: get_lat_lon_row_lengths ms vshape)
  have lats: "bool_index (fst (get_lat_lon (metadata inps))) ?msk = Inr ?lats"
   and lons: "bool_index (snd (get_lat_lon (metadata inps))) ?msk = Inr ?lons"
    using gs by (simp_all add: bool_index_def)
  define L where "L = \<lparr> dates = times inps, vel = ?v, ts = ?t, ts_min = tmin, ts_max = tmax,
            min_vel = lo, max_vel = hi,
            cmap = (case colormap inps of None \<Rightarrow> ''jet'' | Some c \<Rightarrow> c),
            coords = zip ?lats ?lons \<rparr>"
  have rd: "read_data inps = Inr L"
    using sel tsel tmin tmax lh lats lons
    by (simp add: read_data_def Let_def ebind_def L_def)
  have clen: "length (coords L) = ?n"
    using gs by (simp add: L_def masked_cells_length)
  let ?nrm = "nonsingular (min_vel L) (max_vel L) (1/10)"
  have cb: "ColorbarBase E (cmap L) (min_vel L, max_vel L) = Inr ?nrm"
    using reg by (simp add: ColorbarBase_Inr L_def)
  have ord: "fst ?nrm < snd ?nrm" by (rule nonsingular_ordered) simp
  have one: "\<forall>i \<in> set (range_step 0 (length (coords L)) 10). \<exists>p. build_placemark E L ?nrm i = Inr p"
  proof
    fix i assume "i \<in> set (range_step 0 (length (coords L)) 10)"
    then have i: "i < ?n" using range_step_bound [of 10 i 0 "length (coords L)"] clen by simp
    obtain lat lon where c: "getitem (coords L) i = Inr (lat, lon)"
      using i clen by (cases "coords L ! i") (simp add: getitem_def)
    have v: "getitem (vel L) i = Inr (vel L ! i)"
      using i vlen by (simp add: getitem_def L_def)
    have g: "get_cmap E (cmap L) = Inr cm"
      using reg by (simp add: get_cmap_def L_def)
    obtain x where x: "Normalize (fst ?nrm) (snd ?nrm) (vel L ! i) = Inr x"
      using ord by (simp add: Normalize_ordered)
    have "\<exists>h. kml_hex (cm x) = Inr h"
      by (rule kml_hex_succeeds) (rule spec [OF col])
    then obtain h where h: "kml_hex (cm x) = Inr h" by (rule exE)
    have "\<forall>row \<in> set (ts L). i < length row" using rows i by (simp add: L_def)
    moreover have "0 + length (dates L) \<le> length (ts L)" using slabs(2) by (simp add: L_def)
    ultimately have "\<exists>s. displacement_rows (fmt E) (dates L) (ts L) 0 i = Inr s"
      by (rule displacement_rows_succeeds)
    then obtain s where s: "displacement_rows (fmt E) (dates L) (ts L) 0 i = Inr s" by (rule exE)
    show "\<exists>p. build_placemark E L ?nrm i = Inr p"
      by (simp add: build_placemark_def ebind_def c v g x h s)
  qed
  then have "\<exists>ps. build_placemarks E L ?nrm (range_step 0 (length (coords L)) 10) = Inr ps"
    by (rule build_placemarks_succeeds)
  then obtain ps where ps: "build_placemarks E L ?nrm (range_step 0 (length (coords L)) 10) = Inr ps"
    by (rule exE)
  show ?thesis by (simp add: main_def Let_def rd cb ps)
qed

subsection \<open>The example runs\<close>

lemma emitted_Inr: "main E inps = (Inr doc, tr) \<Longrightarrow> emitted (main E inps) = Some (placemarks doc)"
  by (simp add: emitted_def)

lemma run_count:
  assumes "main E inps = (Inr doc, tr)"
  shows "length (placemarks doc)
           = (length (filter (\<lambda>b. b) (concat (valid_mask (vel_data inps)))) + 9) div 10"
proof -
  from main_placemarks [OF assms] obtain L where L: "read_data inps = Inr L"
    and n: "length (placemarks doc) = (length (coords L) + 9) div 10"
    by blast
  show ?thesis using n by (simp only: read_data_lengths(1) [OF L])
qed

lemma ramp_colours:
  "\<forall>x. case ramp x of (r, g, b, a) \<Rightarrow>
         0 \<le> r \<and> r \<le> 1 \<and> 0 \<le> g \<and> g \<le> 1 \<and> 0 \<le> b \<and> b \<le> 1 \<and> 0 \<le> a \<and> a \<le> 1"
  by (simp add: ramp_def Let_def)

lemma example_jet:
  "colormap inps = None \<or> colormap inps = Some ''jet'' \<Longrightarrow>
     cmap_d example_env (case colormap inps of None \<Rightarrow> ''jet'' | Some c \<Rightarrow> c) = Some ramp"
  by (auto simp: example_env_def)

lemma strip_run: "\<exists>doc tr. main example_env strip_inputs = (Inr doc, tr)"
proof -
  have a: "map length (vel_data strip_inputs)
             = replicate (LENGTH (metadata strip_inputs)) (WIDTH (metadata strip_inputs))"
    by code_simp
  have b: "\<forall>a \<in> set (ts_data strip_inputs). map length a = map length (vel_data strip_inputs)"
    by (simp add: strip_inputs_def)
  have c: "\<exists>row \<in> set (vel_data strip_inputs). \<exists>x \<in> set row. \<not> isnan x"
    by code_simp
  have d: "ts_data strip_inputs \<noteq> []" "length (times strip_inputs) \<le> length (ts_data strip_inputs)"
    by (simp_all add: strip_inputs_def)
  have e: "cmap_d example_env (case colormap strip_inputs of None \<Rightarrow> ''jet'' | Some c \<Rightarrow> c) = Some ramp"
    by (rule example_jet) (simp add: strip_inputs_def)
  from main_succeeds [OF a b c d e ramp_colours] show ?thesis by blast
qed

lemma scenario_run: "\<exists>doc tr. main example_env scenario_inputs = (Inr doc, tr)"
proof -
  have a: "map length (vel_data scenario_inputs)
             = replicate (LENGTH (metadata scenario_inputs)) (WIDTH (metadata scenario_inputs))"
    by code_simp
  have b: "\<forall>a \<in> set (ts_data scenario_inputs). map length a = map length (vel_data scenario_inputs)"
    by (simp add: scenario_inputs_def)
  have c: "\<exists>row \<in> set (vel_data scenario_inputs). \<exists>x \<in> set row. \<not> isnan x"
    by code_simp
  have d: "ts_data scenario_inputs \<noteq> []"
          "length (times scenario_inputs) \<le> length (ts_data scenario_inputs)"
    by (simp_all add: scenario_inputs_def)
  have e: "cmap_d example_env (case colormap scenario_inputs of None \<Rightarrow> ''jet'' | Some c \<Rightarrow> c) = Some ramp"
    by (rule example_jet) (simp add: scenario_inputs_def)
  from main_succeeds [OF a b c d e ramp_colours] show ?thesis by blast
qed

lemma reversed_run: "\<exists>doc tr. main example_env reversed_inputs = (Inr doc, tr)"
proof -
  have a: "map length (vel_data reversed_inputs)
             = replicate (LENGTH (metadata reversed_inputs)) (WIDTH (metadata reversed_inputs))"
    by code_simp
  have b: "\<forall>a \<in> set (ts_data reversed_inputs). map length a = map length (vel_data reversed_inputs)"
    by (simp add: reversed_inputs_def)
  have c: "\<exists>row \<in> set (vel_data reversed_inputs). \<exists>x \<in> set row. \<not> isnan x"
    by code_simp
  have d: "ts_data reversed_inputs \<noteq> []"
          "length (times reversed_inputs) \<le> length (ts_data reversed_inputs)"
    by (simp_all add: reversed_inputs_def)
  have e: "cmap_d example_env (case colormap reversed_inputs of None \<Rightarrow> ''jet'' | Some c \<Rightarrow> c) = Some ramp"
    by (rule example_jet) (simp add: reversed_inputs_def)
  from main_succeeds [OF a b c d e ramp_colours] show ?thesis by blast
qed

lemma strip_valid: "length (filter (\<lambda>b. b) (concat (valid_mask (vel_data strip_inputs)))) = 11"
  by code_simp

lemma scenario_valid: "length (filter (\<lambda>b. b) (concat (valid_mask (vel_data scenario_inputs)))) = 8"
  by code_simp

lemma reversed_valid: "length (filter (\<lambda>b. b) (concat (valid_mask (vel_data reversed_inputs)))) = 2"
  by code_simp

lemma strip_emitted: "map_option length (emitted (main example_env strip_inputs)) = Some 2"
proof -
  obtain doc tr where m: "main example_env strip_inputs = (Inr doc, tr)"
    using strip_run by blast
  show ?thesis using run_count [OF m] by (simp add: emitted_Inr [OF m] strip_valid)
qed

lemma scenario_emitted: "map_option length (emitted (main example_env scenario_inputs)) = Some 1"
proof -
  obtain doc tr where m: "main example_env scenario_inputs = (Inr doc, tr)"
    using scenario_run by blast
  show ?thesis using run_count [OF m] by (simp add: emitted_Inr [OF m] scenario_valid)
qed

lemma reversed_emitted: "map_option length (emitted (main example_env reversed_inputs)) = Some 1"
proof -
  obtain doc tr where m: "main example_env reversed_inputs = (Inr doc, tr)"
    using reversed_run by blast
  show ?thesis using run_count [OF m] by (simp add: emitted_Inr [OF m] reversed_valid)
qed

lemma strip_locals:
  "read_data strip_inputs =
     Inr \<lparr> dates = [''2018-01-01''], vel = [1, 1, 1, 1, 1, 1, 1, 1, 1, 1, 2],
           ts = [[1, 1, 1, 1, 1, 1, 1, 1, 1, 1, 3]], ts_min = 1, ts_max = 3,
           min_vel = 0, max_vel = 2, cmap = ''jet'',
           coords = [(9, 0), (9, 8), (9, 12), (6, 0), (6, 4), (6, 8), (6, 12),
                     (3, 0), (3, 4), (3, 8), (3, 12)] \<rparr>"
  by code_simp

lemma scenario_locals:
  "read_data scenario_inputs =
     Inr \<lparr> dates = [''2018-01-01'', ''2018-02-01''], vel = [1, 2, 3, 4, 5, 6, 7, 8],
           ts = [[0, 0, 0, 0, 0, 0, 0, 0],
                 [1/10, 2/10, 3/10, 4/10, 6/10, 7/10, 8/10, 9/10]],
           ts_min = 0, ts_max = 9/10, min_vel = 1, max_vel = 8, cmap = ''jet'',
           coords = [(10, 20), (10, 43/2), (10, 23), (17/2, 20), (17/2, 23),
                     (7, 20), (7, 43/2), (7, 23)] \<rparr>"
  by code_simp

lemma reversed_locals:
  "read_data reversed_inputs =
     Inr \<lparr> dates = [''2018-01-01''], vel = [5, 1], ts = [[0, 1]], ts_min = 0, ts_max = 1,
           min_vel = 5, max_vel = 1, cmap = ''jet'', coords = [(0, 0), (0, 2)] \<rparr>"
  by code_simp

lemma example_limits:
  "nonsingular 0 2 (1/10) = (0, 2)"
  "nonsingular 1 8 (1/10) = (1, 8)"
  "nonsingular 5 1 (1/10) = (1, 5)"
  by (simp_all add: nonsingular_def float_tiny_def Let_def)

lemma example_cmap: "cmap_d example_env name = Some cm \<Longrightarrow> cm = ramp"
  by (auto simp: example_env_def split: if_splits)

subsection \<open>The placemarks\<close>

text \<open>
  C6, as the code has it. The stride is the constant 10. A run that ends without an
  exception emits exactly \<open>ceil(n / 10)\<close> placemarks, where \<open>n\<close> is the number of true
  cells of the validity mask, and the placemark number \<open>k\<close> is the one built for the
  valid pixel number \<open>10 * k\<close>, the valid pixels being counted along the rows of the mask.
\<close>

theorem placemark_count:
  assumes "main E inps = (Inr doc, tr)"
  shows "\<exists>L. read_data inps = Inr L
           \<and> coords L = zip (masked_cells (fst (get_lat_lon (metadata inps))) (valid_mask (vel_data inps)))
                            (masked_cells (snd (get_lat_lon (metadata inps))) (valid_mask (vel_data inps)))
           \<and> length (coords L) = length (filter (\<lambda>b. b) (concat (valid_mask (vel_data inps))))
           \<and> length (placemarks doc)
               = (length (filter (\<lambda>b. b) (concat (valid_mask (vel_data inps)))) + 9) div 10
           \<and> (\<forall>k < length (placemarks doc).
                 10 * k < length (coords L)
               \<and> build_placemark E L (nonsingular (min_vel L) (max_vel L) (1/10)) (10 * k) = Inr (placemarks doc ! k))"
proof -
  from main_placemarks [OF assms] obtain L where L: "read_data inps = Inr L"
    and n: "length (placemarks doc) = (length (coords L) + 9) div 10"
    and each: "\<forall>k < length (placemarks doc).
            10 * k < length (coords L) \<and> build_placemark E L (nonsingular (min_vel L) (max_vel L) (1/10)) (10 * k) = Inr (placemarks doc ! k)"
    by blast
  have c: "length (coords L) = length (filter (\<lambda>b. b) (concat (valid_mask (vel_data inps))))"
    by (rule read_data_lengths(1) [OF L])
  have n': "length (placemarks doc)
               = (length (filter (\<lambda>b. b) (concat (valid_mask (vel_data inps)))) + 9) div 10"
    using n by (simp only: c)
  show ?thesis
    using L n' each c read_data_Inr(9) [OF L] by blast
qed

theorem placemark_count_witness:
  "length (filter (\<lambda>b. b) (concat (valid_mask (vel_data strip_inputs)))) = 11
   \<and> map_option length (emitted (main example_env strip_inputs)) = Some 2"
proof -
  obtain doc tr where m: "main example_env strip_inputs = (Inr doc, tr)"
    using strip_run by blast
  have n: "length (filter (\<lambda>b. b) (concat (valid_mask (vel_data strip_inputs)))) = 11"
    by code_simp
  from placemark_count [OF m] have "length (placemarks doc) = (11 + 9) div 10"
    by (auto simp only: n)
  then show ?thesis using n by (simp add: emitted_Inr [OF m])
qed

text \<open>
  The stride is not an input of the program: with eleven valid pixels the run emits two
  placemarks, which is not \<open>ceil(11 / N)\<close> for the stride \<open>N = 1\<close>.
\<close>

theorem stride_counterexample:
  "length (filter (\<lambda>b. b) (concat (valid_mask (vel_data strip_inputs)))) = 11
   \<and> map_option length (emitted (main example_env strip_inputs)) = Some 2
   \<and> map_option length (emitted (main example_env strip_inputs)) \<noteq> Some ((11 + (1 - 1)) div 1)"
proof -
  have "length (filter (\<lambda>b. b) (concat (valid_mask (vel_data strip_inputs)))) = 11"
    by code_simp
  then show ?thesis by (simp add: strip_emitted)
qed

text \<open>
  C7. Every emitted placemark writes its coordinates as the longitude, a comma, the
  latitude: the reverse of the pair (lat, lon) kept in \<^verbatim>\<open>coords\<close>.
\<close>

theorem coordinates_lon_lat:
  assumes "main E inps = (Inr doc, tr)"
  shows "\<forall>k < length (placemarks doc).
           coordinates (placemarks doc ! k)
             = fmt E (masked_cells (snd (get_lat_lon (metadata inps))) (valid_mask (vel_data inps)) ! (10 * k))
               @ '','' @
               fmt E (masked_cells (fst (get_lat_lon (metadata inps))) (valid_mask (vel_data inps)) ! (10 * k))
         \<and> (\<exists>L. read_data inps = Inr L
                \<and> coords L ! (10 * k)
                    = (masked_cells (fst (get_lat_lon (metadata inps))) (valid_mask (vel_data inps)) ! (10 * k),
                       masked_cells (snd (get_lat_lon (metadata inps))) (valid_mask (vel_data inps)) ! (10 * k)))"
proof (intro allI impI)
  fix k assume k: "k < length (placemarks doc)"
  from main_placemarks [OF assms] obtain L where L: "read_data inps = Inr L"
    and each: "\<forall>k < length (placemarks doc).
            10 * k < length (coords L) \<and> build_placemark E L (nonsingular (min_vel L) (max_vel L) (1/10)) (10 * k) = Inr (placemarks doc ! k)"
    by blast
  let ?lats = "masked_cells (fst (get_lat_lon (metadata inps))) (valid_mask (vel_data inps))"
  let ?lons = "masked_cells (snd (get_lat_lon (metadata inps))) (valid_mask (vel_data inps))"
  have c: "coords L = zip ?lats ?lons" by (rule read_data_Inr(9) [OF L])
  have i: "10 * k < length (coords L)" and b: "build_placemark E L (nonsingular (min_vel L) (max_vel L) (1/10)) (10 * k) = Inr (placemarks doc ! k)"
    using each k by simp_all
  have "10 * k < length (zip ?lats ?lons)" using i c by simp
  then have "zip ?lats ?lons ! (10 * k) = (?lats ! (10 * k), ?lons ! (10 * k))"
    by simp
  then have ll: "coords L ! (10 * k) = (?lats ! (10 * k), ?lons ! (10 * k))"
    by (simp only: c)
  have "coordinates (placemarks doc ! k)
          = fmt E (snd (coords L ! (10 * k))) @ '','' @ fmt E (fst (coords L ! (10 * k)))"
    using build_placemark_Inr [OF b] by blast
  then have "coordinates (placemarks doc ! k) = fmt E (?lons ! (10 * k)) @ '','' @ fmt E (?lats ! (10 * k))"
    by (simp add: ll)
  then show "coordinates (placemarks doc ! k) = fmt E (?lons ! (10 * k)) @ '','' @ fmt E (?lats ! (10 * k))
         \<and> (\<exists>L. read_data inps = Inr L \<and> coords L ! (10 * k) = (?lats ! (10 * k), ?lons ! (10 * k)))"
    using L ll by blast
qed

text \<open>
  In the 3 by 4 example the second placemark is the valid pixel number 10, the cell in
  the last row and the last column: latitude 3, longitude 12.
\<close>

theorem coordinates_lon_lat_witness:
  "map_option (\<lambda>ps. coordinates (ps ! 1)) (emitted (main example_env strip_inputs)) = Some ''12.0,3.0''"
proof -
  obtain doc tr where m: "main example_env strip_inputs = (Inr doc, tr)"
    using strip_run by blast
  have e: "emitted (main example_env strip_inputs) = Some (placemarks doc)"
    by (rule emitted_Inr [OF m])
  have "length (placemarks doc) = 2" using strip_emitted by (simp add: e)
  then have k: "1 < length (placemarks doc)" by simp
  have v: "fmt example_env (masked_cells (snd (get_lat_lon (metadata strip_inputs)))
                              (valid_mask (vel_data strip_inputs)) ! (10 * 1))
             @ '','' @
           fmt example_env (masked_cells (fst (get_lat_lon (metadata strip_inputs)))
                              (valid_mask (vel_data strip_inputs)) ! (10 * 1)) = ''12.0,3.0''"
    by code_simp
  from coordinates_lon_lat [OF m] k
  have "coordinates (placemarks doc ! 1) = ''12.0,3.0''"
    by (simp only: v) 
  then show ?thesis by (simp add: e)
qed

subsection \<open>What a placemark of a completed run holds\<close>

lemma run_placemark:
  assumes run: "main E inps = (Inr doc, tr)"
    and L: "read_data inps = Inr L"
    and k: "k < length (placemarks doc)"
  shows "\<exists>cm. cmap_d E (cmap L) = Some cm
           \<and> 10 * k < length (vel L)
           \<and> kml_hex (cm ((vel L ! (10 * k) - fst (nonsingular (min_vel L) (max_vel L) (1/10)))
                           / (snd (nonsingular (min_vel L) (max_vel L) (1/10))
                              - fst (nonsingular (min_vel L) (max_vel L) (1/10)))))
               = Inr (color (placemarks doc ! k))
           \<and> description (placemarks doc ! k) =
                js_head
                @ concat (map (\<lambda>(d, row). [CHR 0x22] @ d @ '', '' @ fmt E (row ! (10 * k))
                                            @ [CHR 0x5C] @ ''n'' @ [CHR 0x22] @ '' + '' @ [CHR 0x0A])
                              (zip (times inps) (ts L)))
                @ [CHR 0x22, CHR 0x22] @ '','' @ [CHR 0x0A]
                @ ''{valueRange: ['' @ fmt E (ts_min L) @ '','' @ fmt E (ts_max L) @ ''],''
                @ ''ylabel: '' @ [CHR 0x27] @ ''[cm]'' @ [CHR 0x27] @ '',''
                @ ''});</script>]]>''"
proof -
  let ?N = "nonsingular (min_vel L) (max_vel L) (1/10)"
  from main_placemarks [OF run] obtain L' where L': "read_data inps = Inr L'"
    and each: "\<forall>k < length (placemarks doc).
                 10 * k < length (coords L')
               \<and> build_placemark E L' (nonsingular (min_vel L') (max_vel L') (1/10)) (10 * k)
                   = Inr (placemarks doc ! k)"
    by blast
  have "L' = L" using L L' by simp
  then have b: "build_placemark E L ?N (10 * k) = Inr (placemarks doc ! k)"
    using each k by simp
  from build_placemark_Inr [OF b] obtain cm x where
        cm: "cmap_d E (cmap L) = Some cm"
    and v: "10 * k < length (vel L)"
    and x: "Normalize (fst ?N) (snd ?N) (vel L ! (10 * k)) = Inr x"
    and c: "kml_hex (cm x) = Inr (color (placemarks doc ! k))"
    and d: "description (placemarks doc ! k) =
                js_head
                @ concat (map (\<lambda>(d, row). [CHR 0x22] @ d @ '', '' @ fmt E (row ! (10 * k))
                                            @ [CHR 0x5C] @ ''n'' @ [CHR 0x22] @ '' + '' @ [CHR 0x0A])
                              (zip (dates L) (ts L)))
                @ [CHR 0x22, CHR 0x22] @ '','' @ [CHR 0x0A]
                @ ''{valueRange: ['' @ fmt E (ts_min L) @ '','' @ fmt E (ts_max L) @ ''],''
                @ ''ylabel: '' @ [CHR 0x27] @ ''[cm]'' @ [CHR 0x27] @ '',''
                @ ''});</script>]]>''"
    by (elim exE conjE)
  have ord: "fst ?N < snd ?N" by (rule nonsingular_ordered) simp
  have x': "x = (vel L ! (10 * k) - fst ?N) / (snd ?N - fst ?N)"
    using x by (simp only: Normalize_ordered [OF ord])
  have dt: "dates L = times inps" by (rule read_data_Inr(1) [OF L])
  note facts = cm v c [unfolded x'] d [unfolded dt]
  show ?thesis by (intro exI [of _ cm] conjI facts)
qed

subsection \<open>Normalisation of the velocity in the loop\<close>

text \<open>
  C4, as the code has it. Take the limits of the colour scale, given with \<^verbatim>\<open>--vlim\<close> or
  taken from the data, with \<open>vmin < vmax\<close>, and such that the colour bar leaves them as they
  are: the larger magnitude is at least \<open>1e21\<close> times the smallest normal double, and
  \<open>vmax - vmin\<close> is more than \<open>1e-15\<close> times the larger magnitude. Then the colour of
  every emitted placemark is the colour of \<open>(v - vmin) / (vmax - vmin)\<close> for its velocity
  \<open>v\<close>, with no clamping: this normalisation sends \<open>vmin\<close> to 0 and \<open>vmax\<close> to 1, is affine
  and monotonic in \<open>v\<close>, and sends values below \<open>vmin\<close> below 0 and values above \<open>vmax\<close>
  above 1.
\<close>

theorem velocity_normalisation:
  assumes run: "main E inps = (Inr doc, tr)"
    and L: "read_data inps = Inr L"
    and order: "min_vel L < max_vel L"
    and big: "(10 ^ 6 / (1 / 10 ^ 15)) * float_tiny \<le> max \<bar>min_vel L\<bar> \<bar>max_vel L\<bar>"
    and apart: "max \<bar>min_vel L\<bar> \<bar>max_vel L\<bar> * (1 / 10 ^ 15) < max_vel L - min_vel L"
  shows "(\<forall>lo hi. vlim inps = Some (lo, hi) \<longrightarrow> min_vel L = lo \<and> max_vel L = hi)
       \<and> (vlim inps = None \<longrightarrow> min_vel L = Min (set (vel L)) \<and> max_vel L = Max (set (vel L)))
       \<and> ColorbarBase E (cmap L) (min_vel L, max_vel L) = Inr (min_vel L, max_vel L)
       \<and> (\<forall>k < length (placemarks doc).
             \<exists>cm. cmap_d E (cmap L) = Some cm
                \<and> kml_hex (cm ((vel L ! (10 * k) - min_vel L) / (max_vel L - min_vel L)))
                    = Inr (color (placemarks doc ! k)))
       \<and> (\<forall>v. Normalize (min_vel L) (max_vel L) v = Inr ((v - min_vel L) / (max_vel L - min_vel L)))
       \<and> Normalize (min_vel L) (max_vel L) (min_vel L) = Inr 0
       \<and> Normalize (min_vel L) (max_vel L) (max_vel L) = Inr 1
       \<and> (\<forall>v. (v - min_vel L) / (max_vel L - min_vel L)
                = v * (1 / (max_vel L - min_vel L)) + (- min_vel L / (max_vel L - min_vel L)))
       \<and> (\<forall>v w. v \<le> w \<longrightarrow> (v - min_vel L) / (max_vel L - min_vel L)
                               \<le> (w - min_vel L) / (max_vel L - min_vel L))
       \<and> (\<forall>v. v < min_vel L \<longrightarrow> (v - min_vel L) / (max_vel L - min_vel L) < 0)
       \<and> (\<forall>v. max_vel L < v \<longrightarrow> 1 < (v - min_vel L) / (max_vel L - min_vel L))"
proof -
  let ?lo = "min_vel L" and ?hi = "max_vel L"
  have d: "0 < ?hi - ?lo" using order by simp
  have N: "nonsingular ?lo ?hi (1/10) = (?lo, ?hi)"
    using order big apart by (rule nonsingular_unchanged)
  have lim: "vel_limits (vlim inps) (vel L) = Inr (?lo, ?hi)"
    by (rule read_data_Inr(7) [OF L])
  have some: "\<forall>lo hi. vlim inps = Some (lo, hi) \<longrightarrow> ?lo = lo \<and> ?hi = hi"
    using lim by (auto simp: vel_limits_Some)
  have none: "vlim inps = None \<longrightarrow> ?lo = Min (set (vel L)) \<and> ?hi = Max (set (vel L))"
    using lim vel_limits_None by auto
  have reg: "cmap_d E (cmap L) \<noteq> None"
    using main_Inr [OF run] L by auto
  have cb: "ColorbarBase E (cmap L) (?lo, ?hi) = Inr (?lo, ?hi)"
    using reg by (simp add: ColorbarBase_Inr N)
  have col: "\<forall>k < length (placemarks doc).
             \<exists>cm. cmap_d E (cmap L) = Some cm
                \<and> kml_hex (cm ((vel L ! (10 * k) - ?lo) / (?hi - ?lo)))
                    = Inr (color (placemarks doc ! k))"
  proof (intro allI impI)
    fix k assume k: "k < length (placemarks doc)"
    from run_placemark [OF run L k] obtain cm where
          cm: "cmap_d E (cmap L) = Some cm"
      and c: "kml_hex (cm ((vel L ! (10 * k) - fst (nonsingular ?lo ?hi (1/10)))
                           / (snd (nonsingular ?lo ?hi (1/10)) - fst (nonsingular ?lo ?hi (1/10)))))
               = Inr (color (placemarks doc ! k))"
      by (elim exE conjE)
    have "kml_hex (cm ((vel L ! (10 * k) - ?lo) / (?hi - ?lo))) = Inr (color (placemarks doc ! k))"
      using c by (simp only: N fst_conv snd_conv)
    then show "\<exists>cm. cmap_d E (cmap L) = Some cm
                \<and> kml_hex (cm ((vel L ! (10 * k) - ?lo) / (?hi - ?lo)))
                    = Inr (color (placemarks doc ! k))"
      using cm by blast
  qed
  have a: "\<forall>v. Normalize ?lo ?hi v = Inr ((v - ?lo) / (?hi - ?lo))"
    using order by (simp add: Normalize_lt)
  have b0: "Normalize ?lo ?hi ?lo = Inr 0" using order by (simp add: Normalize_lt)
  have b1: "Normalize ?lo ?hi ?hi = Inr 1" using order by (simp add: Normalize_lt)
  have e: "\<forall>v. (v - ?lo) / (?hi - ?lo) = v * (1 / (?hi - ?lo)) + (- ?lo / (?hi - ?lo))"
    by (simp add: diff_divide_distrib)
  have f: "\<forall>v w. v \<le> w \<longrightarrow> (v - ?lo) / (?hi - ?lo) \<le> (w - ?lo) / (?hi - ?lo)"
    using d by (simp add: divide_right_mono)
  have g: "\<forall>v. v < ?lo \<longrightarrow> (v - ?lo) / (?hi - ?lo) < 0"
    using d by (simp add: divide_neg_pos)
  have h: "\<forall>v. ?hi < v \<longrightarrow> 1 < (v - ?lo) / (?hi - ?lo)"
    using d by (simp add: less_divide_eq)
  note facts = some none cb col a b0 b1 e f g h
  show ?thesis by (intro conjI facts)
qed

lemma Inr_locals: "read_data inps = Inr L \<Longrightarrow> read_data inps = Inr L' \<Longrightarrow> L' = L"
  by simp

lemma two_placemarks: "length ps = 2 \<Longrightarrow> ps = [ps ! 0, ps ! 1]"
  by (cases ps; cases "tl ps") auto

lemma one_placemark: "length ps = Suc 0 \<Longrightarrow> ps = [ps ! 0]"
  by (cases ps) auto

text \<open>
  In the 3 by 4 example the limits are 0 and 2 and the valid pixels number 0 and 10
  have the velocities 1 and 2 (centimetres): their colours are those of 1/2 and of 1.
\<close>

theorem velocity_normalisation_witness:
  "map_option (map color) (emitted (main example_env strip_inputs)) = Some [''ff800080'', ''ff0000ff'']"
proof -
  obtain doc tr where m: "main example_env strip_inputs = (Inr doc, tr)"
    using strip_run by blast
  have e: "emitted (main example_env strip_inputs) = Some (placemarks doc)"
    by (rule emitted_Inr [OF m])
  have len: "length (placemarks doc) = 2" using strip_emitted by (simp add: e)
  let ?L = "\<lparr> dates = [''2018-01-01''], vel = [1, 1, 1, 1, 1, 1, 1, 1, 1, 1, 2],
           ts = [[1, 1, 1, 1, 1, 1, 1, 1, 1, 1, 3]], ts_min = 1, ts_max = 3,
           min_vel = 0, max_vel = 2, cmap = ''jet'',
           coords = [(9, 0), (9, 8), (9, 12), (6, 0), (6, 4), (6, 8), (6, 12),
                     (3, 0), (3, 4), (3, 8), (3, 12)] \<rparr> :: locals"
  have o: "min_vel ?L < max_vel ?L" by simp
  have b: "(10 ^ 6 / (1 / 10 ^ 15)) * float_tiny \<le> max \<bar>min_vel ?L\<bar> \<bar>max_vel ?L\<bar>"
    by (simp add: float_tiny_def)
  have a: "max \<bar>min_vel ?L\<bar> \<bar>max_vel ?L\<bar> * (1 / 10 ^ 15) < max_vel ?L - min_vel ?L"
    by simp
  from velocity_normalisation [OF m strip_locals o b a]
  have col: "\<forall>k < length (placemarks doc).
             \<exists>cm. cmap_d example_env (cmap ?L) = Some cm
                \<and> kml_hex (cm ((vel ?L ! (10 * k) - min_vel ?L) / (max_vel ?L - min_vel ?L)))
                    = Inr (color (placemarks doc ! k))"
    by (elim conjE)
  have c0: "kml_hex (ramp (1/2)) = Inr ''ff800080''" and c1: "kml_hex (ramp 1) = Inr ''ff0000ff''"
    by code_simp+
  from col len obtain cm where "cmap_d example_env (cmap ?L) = Some cm"
    and "kml_hex (cm ((vel ?L ! (10 * 0) - min_vel ?L) / (max_vel ?L - min_vel ?L)))
           = Inr (color (placemarks doc ! 0))"
    by (metis zero_less_numeral)
  then have p0: "color (placemarks doc ! 0) = ''ff800080''"
    using c0 by (auto dest!: example_cmap)
  from col len obtain cm where "cmap_d example_env (cmap ?L) = Some cm"
    and "kml_hex (cm ((vel ?L ! (10 * 1) - min_vel ?L) / (max_vel ?L - min_vel ?L)))
           = Inr (color (placemarks doc ! 1))"
    by (metis one_less_numeral_iff semiring_norm(76))
  then have p1: "color (placemarks doc ! 1) = ''ff0000ff''"
    using c1 by (auto dest!: example_cmap)
  have p1': "color (placemarks doc ! Suc 0) = ''ff0000ff''" using p1 by simp
  have "map color (placemarks doc) = [''ff800080'', ''ff0000ff'']"
    by (subst two_placemarks [OF len]) (simp add: p0 p1')
  then show ?thesis by (simp add: e)
qed

text \<open>
  With \<^verbatim>\<open>--vlim 5 1\<close> the colour bar swaps the limits before the loop. The pixel with the
  velocity 5, the given \<open>vmin\<close>, gets the colour of 1, the top of the ramp, and not the
  colour of \<open>(5 - 5) / (1 - 5) = 0\<close>, its bottom.
\<close>

theorem reversed_limits_counterexample:
  "vlim reversed_inputs = Some (5, 1)
   \<and> map_option (map color) (emitted (main example_env reversed_inputs)) = Some [''ff0000ff'']
   \<and> kml_hex (ramp ((5 - 5) / (1 - 5))) = Inr ''ffff0000''
   \<and> map_option (map color) (emitted (main example_env reversed_inputs)) \<noteq> Some [''ffff0000'']"
proof -
  obtain doc tr where m: "main example_env reversed_inputs = (Inr doc, tr)"
    using reversed_run by blast
  have e: "emitted (main example_env reversed_inputs) = Some (placemarks doc)"
    by (rule emitted_Inr [OF m])
  have len: "length (placemarks doc) = Suc 0" using reversed_emitted by (simp add: e)
  then have k: "0 < length (placemarks doc)" by simp
  let ?L = "\<lparr> dates = [''2018-01-01''], vel = [5, 1], ts = [[0, 1]], ts_min = 0, ts_max = 1,
           min_vel = 5, max_vel = 1, cmap = ''jet'', coords = [(0, 0), (0, 2)] \<rparr> :: locals"
  from run_placemark [OF m reversed_locals k] obtain cm where
        cm: "cmap_d example_env (cmap ?L) = Some cm"
    and c: "kml_hex (cm ((vel ?L ! (10 * 0) - fst (nonsingular (min_vel ?L) (max_vel ?L) (1/10)))
                           / (snd (nonsingular (min_vel ?L) (max_vel ?L) (1/10))
                              - fst (nonsingular (min_vel ?L) (max_vel ?L) (1/10)))))
               = Inr (color (placemarks doc ! 0))"
    by (elim exE conjE)
  have cr: "cm = ramp" using cm by (rule example_cmap)
  have c1: "kml_hex (ramp 1) = Inr ''ff0000ff''" and c0: "kml_hex (ramp 0) = Inr ''ffff0000''"
    by code_simp+
  have "kml_hex (ramp 1) = Inr (color (placemarks doc ! 0))"
    using c by (simp add: cr example_limits)
  then have p0: "color (placemarks doc ! 0) = ''ff0000ff''" using c1 by simp
  have "map color (placemarks doc) = [''ff0000ff'']"
    by (subst one_placemark [OF len]) (simp add: p0)
  then have r: "map_option (map color) (emitted (main example_env reversed_inputs)) = Some [''ff0000ff'']"
    by (simp add: e)
  have v: "vlim reversed_inputs = Some (5, 1)" by (simp add: reversed_inputs_def)
  show ?thesis by (simp add: r v c0)
qed

lemma show_tenths_values:
  "show_tenths 0 = ''0.0''" "show_tenths 1 = ''1.0''" "show_tenths 3 = ''3.0''"
  "show_tenths (1/10) = ''0.1''" "show_tenths (9/10) = ''0.9''"
  by code_simp+

lemma example_fmt: "fmt example_env = show_tenths"
  by (simp add: example_env_def)

lemma strip_ts:
  "map (\<lambda>a. map (\<lambda>x. x * 100) (masked_cells a (valid_mask (vel_data strip_inputs))))
       (ts_data strip_inputs) = [[1, 1, 1, 1, 1, 1, 1, 1, 1, 1, 3]]"
  by code_simp

subsection \<open>The value range of the charts\<close>

text \<open>
  C5. The value range is one pair, computed in \<^verbatim>\<open>main\<close> before the loop: the minimum
  and the maximum of the masked time series over all dates and all valid cells. The
  description of every emitted placemark ends with the text
  \<^verbatim>\<open>{valueRange: [MIN,MAX],ylabel: '[cm]',});</script>]]>\<close> where \<^verbatim>\<open>MIN\<close> and \<^verbatim>\<open>MAX\<close> are
  this one pair as printed, so any two placemarks carry equal bounds.
\<close>

theorem shared_chart_range:
  assumes "main E inps = (Inr doc, tr)"
  shows "\<exists>L. read_data inps = Inr L
           \<and> ts L = map (\<lambda>a. map (\<lambda>x. x * 100) (masked_cells a (valid_mask (vel_data inps))))
                         (ts_data inps)
           \<and> concat (ts L) \<noteq> []
           \<and> ts_min L = Min (set (concat (ts L)))
           \<and> ts_max L = Max (set (concat (ts L)))
           \<and> (\<forall>k < length (placemarks doc).
                 \<exists>body. description (placemarks doc ! k)
                           = body
                             @ ''{valueRange: ['' @ fmt E (ts_min L) @ '','' @ fmt E (ts_max L) @ ''],''
                             @ ''ylabel: '' @ [CHR 0x27] @ ''[cm]'' @ [CHR 0x27] @ '',''
                             @ ''});</script>]]>'')"
proof -
  from main_Inr [OF assms] obtain L where L: "read_data inps = Inr L" by blast
  have "\<forall>k < length (placemarks doc).
          \<exists>body. description (placemarks doc ! k)
                    = body
                      @ ''{valueRange: ['' @ fmt E (ts_min L) @ '','' @ fmt E (ts_max L) @ ''],''
                      @ ''ylabel: '' @ [CHR 0x27] @ ''[cm]'' @ [CHR 0x27] @ '',''
                      @ ''});</script>]]>''"
  proof (intro allI impI)
    fix k assume k: "k < length (placemarks doc)"
    let ?body = "js_head
                @ concat (map (\<lambda>(d, row). [CHR 0x22] @ d @ '', '' @ fmt E (row ! (10 * k))
                                            @ [CHR 0x5C] @ ''n'' @ [CHR 0x22] @ '' + '' @ [CHR 0x0A])
                              (zip (times inps) (ts L)))
                @ [CHR 0x22, CHR 0x22] @ '','' @ [CHR 0x0A]"
    from run_placemark [OF assms L k]
    have "description (placemarks doc ! k) =
                js_head
                @ concat (map (\<lambda>(d, row). [CHR 0x22] @ d @ '', '' @ fmt E (row ! (10 * k))
                                            @ [CHR 0x5C] @ ''n'' @ [CHR 0x22] @ '' + '' @ [CHR 0x0A])
                              (zip (times inps) (ts L)))
                @ [CHR 0x22, CHR 0x22] @ '','' @ [CHR 0x0A]
                @ ''{valueRange: ['' @ fmt E (ts_min L) @ '','' @ fmt E (ts_max L) @ ''],''
                @ ''ylabel: '' @ [CHR 0x27] @ ''[cm]'' @ [CHR 0x27] @ '',''
                @ ''});</script>]]>''"
      by (elim exE conjE)
    then have split: "description (placemarks doc ! k)
                    = ?body
                      @ ''{valueRange: ['' @ fmt E (ts_min L) @ '','' @ fmt E (ts_max L) @ ''],''
                      @ ''ylabel: '' @ [CHR 0x27] @ ''[cm]'' @ [CHR 0x27] @ '',''
                      @ ''});</script>]]>''"
      by (simp only: append_assoc)
    show "\<exists>body. description (placemarks doc ! k)
                    = body
                      @ ''{valueRange: ['' @ fmt E (ts_min L) @ '','' @ fmt E (ts_max L) @ ''],''
                      @ ''ylabel: '' @ [CHR 0x27] @ ''[cm]'' @ [CHR 0x27] @ '',''
                      @ ''});</script>]]>''"
      by (rule exI [of _ ?body]) (rule split)
  qed
  note facts = L read_data_Inr(3,4,5,6) [OF L] this
  show ?thesis by (intro exI [of _ L] conjI facts)
qed

text \<open>
  In the 3 by 4 example the masked series runs from 1 to 3 (the 5 metres stored in the
  cell without velocity do not count), and the last 53 characters of both descriptions
  are the range 1.0 to 3.0.
\<close>

theorem shared_chart_range_witness:
  "map_option (map (\<lambda>p. drop (length (description p) - 53) (description p)))
              (emitted (main example_env strip_inputs))
     = Some [''{valueRange: [1.0,3.0],ylabel: '' @ [CHR 0x27] @ ''[cm]'' @ [CHR 0x27] @ '',});</script>]]>'',
             ''{valueRange: [1.0,3.0],ylabel: '' @ [CHR 0x27] @ ''[cm]'' @ [CHR 0x27] @ '',});</script>]]>'']"
proof -
  obtain doc tr where m: "main example_env strip_inputs = (Inr doc, tr)"
    using strip_run by blast
  have e: "emitted (main example_env strip_inputs) = Some (placemarks doc)"
    by (rule emitted_Inr [OF m])
  have len: "length (placemarks doc) = 2" using strip_emitted by (simp add: e)
  from shared_chart_range [OF m] obtain L where all:
       "read_data strip_inputs = Inr L
        \<and> ts L = map (\<lambda>a. map (\<lambda>x. x * 100) (masked_cells a (valid_mask (vel_data strip_inputs))))
                      (ts_data strip_inputs)
        \<and> concat (ts L) \<noteq> []
        \<and> ts_min L = Min (set (concat (ts L)))
        \<and> ts_max L = Max (set (concat (ts L)))
        \<and> (\<forall>k < length (placemarks doc).
              \<exists>body. description (placemarks doc ! k)
                        = body
                          @ ''{valueRange: ['' @ fmt example_env (ts_min L) @ '',''
                          @ fmt example_env (ts_max L) @ ''],''
                          @ ''ylabel: '' @ [CHR 0x27] @ ''[cm]'' @ [CHR 0x27] @ '',''
                          @ ''});</script>]]>'')"
    by (rule exE)
  from all have t0: "ts L = map (\<lambda>a. map (\<lambda>x. x * 100) (masked_cells a (valid_mask (vel_data strip_inputs))))
                        (ts_data strip_inputs)"
    by (elim conjE)
  from all have lo: "ts_min L = Min (set (concat (ts L)))" by (elim conjE)
  from all have hi: "ts_max L = Max (set (concat (ts L)))" by (elim conjE)
  from all have d: "\<forall>k < length (placemarks doc).
              \<exists>body. description (placemarks doc ! k)
                        = body
                          @ ''{valueRange: ['' @ fmt example_env (ts_min L) @ '',''
                          @ fmt example_env (ts_max L) @ ''],''
                          @ ''ylabel: '' @ [CHR 0x27] @ ''[cm]'' @ [CHR 0x27] @ '',''
                          @ ''});</script>]]>''"
    by (elim conjE)
  have t: "ts L = [[1, 1, 1, 1, 1, 1, 1, 1, 1, 1, 3]]" using t0 by (simp only: strip_ts)
  have lo': "ts_min L = 1" and hi': "ts_max L = 3" by (simp_all add: lo hi t)
  let ?T = "''{valueRange: [1.0,3.0],ylabel: '' @ [CHR 0x27] @ ''[cm]'' @ [CHR 0x27] @ '',});</script>]]>''"
  have cut: "\<And>k. k < 2 \<Longrightarrow>
      drop (length (description (placemarks doc ! k)) - 53) (description (placemarks doc ! k)) = ?T"
  proof -
    fix k :: nat assume "k < 2"
    then have "k < length (placemarks doc)" using len by simp
    from d [rule_format, OF this] obtain body where "description (placemarks doc ! k)
                        = body
                          @ ''{valueRange: ['' @ fmt example_env (ts_min L) @ '',''
                          @ fmt example_env (ts_max L) @ ''],''
                          @ ''ylabel: '' @ [CHR 0x27] @ ''[cm]'' @ [CHR 0x27] @ '',''
                          @ ''});</script>]]>''"
      by (rule exE)
    then have "description (placemarks doc ! k) = body @ ?T"
      by (simp add: lo' hi' example_fmt show_tenths_values)
    then show "drop (length (description (placemarks doc ! k)) - 53) (description (placemarks doc ! k)) = ?T"
      by simp
  qed
  have "map (\<lambda>p. drop (length (description p) - 53) (description p)) (placemarks doc) = [?T, ?T]"
    by (subst two_placemarks [OF len]) (simp add: cut)
  then show ?thesis by (simp add: e)
qed

subsection \<open>Centimetres\<close>

text \<open>
  C9. In a completed run, with \<open>L\<close> the variables that \<^verbatim>\<open>main\<close> has computed before the
  colour bar: the velocity and the time series are multiplied by 100 right after masking,
  and only the scaled values are used afterwards: the limits of the colour scale when no
  \<^verbatim>\<open>--vlim\<close> is given are the minimum and maximum of the scaled velocities, the colour
  of a placemark is that of its scaled velocity between the limits as the colour bar
  left them, the value range is that of the scaled series, and the displacements written
  into a description, one line \<^verbatim>\<open>"DATE, VALUE\n" + \<close> for every date, are the scaled ones.
\<close>

theorem centimetres:
  assumes run: "main E inps = (Inr doc, tr)" and L: "read_data inps = Inr L"
  shows "vel L = map (\<lambda>x. x * 100)
                          (reals (masked_cells (vel_data inps) (valid_mask (vel_data inps))))
           \<and> ts L = map (\<lambda>a. map (\<lambda>x. x * 100) (masked_cells a (valid_mask (vel_data inps))))
                         (ts_data inps)
           \<and> (vlim inps = None \<longrightarrow> min_vel L = Min (set (vel L)) \<and> max_vel L = Max (set (vel L)))
           \<and> (\<forall>lo hi. vlim inps = Some (lo, hi) \<longrightarrow> min_vel L = lo \<and> max_vel L = hi)
           \<and> ts_min L = Min (set (concat (ts L)))
           \<and> ts_max L = Max (set (concat (ts L)))
           \<and> (\<forall>k < length (placemarks doc).
                 \<exists>cm. cmap_d E (cmap L) = Some cm
                    \<and> 10 * k < length (vel L)
                    \<and> kml_hex (cm ((vel L ! (10 * k) - fst (nonsingular (min_vel L) (max_vel L) (1/10)))
                                    / (snd (nonsingular (min_vel L) (max_vel L) (1/10))
                                       - fst (nonsingular (min_vel L) (max_vel L) (1/10)))))
                        = Inr (color (placemarks doc ! k))
                    \<and> description (placemarks doc ! k) =
                        js_head
                        @ concat (map (\<lambda>(d, row). [CHR 0x22] @ d @ '', '' @ fmt E (row ! (10 * k))
                                            @ [CHR 0x5C] @ ''n'' @ [CHR 0x22] @ '' + '' @ [CHR 0x0A])
                                      (zip (times inps) (ts L)))
                        @ [CHR 0x22, CHR 0x22] @ '','' @ [CHR 0x0A]
                        @ ''{valueRange: ['' @ fmt E (ts_min L) @ '','' @ fmt E (ts_max L) @ ''],''
                        @ ''ylabel: '' @ [CHR 0x27] @ ''[cm]'' @ [CHR 0x27] @ '',''
                        @ ''});</script>]]>'')"
proof -
  have lim: "vel_limits (vlim inps) (vel L) = Inr (min_vel L, max_vel L)"
    by (rule read_data_Inr(7) [OF L])
  have none: "vlim inps = None \<longrightarrow> min_vel L = Min (set (vel L)) \<and> max_vel L = Max (set (vel L))"
    using lim vel_limits_None by auto
  have some: "\<forall>lo hi. vlim inps = Some (lo, hi) \<longrightarrow> min_vel L = lo \<and> max_vel L = hi"
    using lim by (auto simp: vel_limits_Some)
  have pm: "\<forall>k < length (placemarks doc).
                 \<exists>cm. cmap_d E (cmap L) = Some cm
                    \<and> 10 * k < length (vel L)
                    \<and> kml_hex (cm ((vel L ! (10 * k) - fst (nonsingular (min_vel L) (max_vel L) (1/10)))
                                    / (snd (nonsingular (min_vel L) (max_vel L) (1/10))
                                       - fst (nonsingular (min_vel L) (max_vel L) (1/10)))))
                        = Inr (color (placemarks doc ! k))
                    \<and> description (placemarks doc ! k) =
                        js_head
                        @ concat (map (\<lambda>(d, row). [CHR 0x22] @ d @ '', '' @ fmt E (row ! (10 * k))
                                            @ [CHR 0x5C] @ ''n'' @ [CHR 0x22] @ '' + '' @ [CHR 0x0A])
                                      (zip (times inps) (ts L)))
                        @ [CHR 0x22, CHR 0x22] @ '','' @ [CHR 0x0A]
                        @ ''{valueRange: ['' @ fmt E (ts_min L) @ '','' @ fmt E (ts_max L) @ ''],''
                        @ ''ylabel: '' @ [CHR 0x27] @ ''[cm]'' @ [CHR 0x27] @ '',''
                        @ ''});</script>]]>''"
  proof (intro allI impI)
    fix k assume k: "k < length (placemarks doc)"
    show "\<exists>cm. cmap_d E (cmap L) = Some cm
                    \<and> 10 * k < length (vel L)
                    \<and> kml_hex (cm ((vel L ! (10 * k) - fst (nonsingular (min_vel L) (max_vel L) (1/10)))
                                    / (snd (nonsingular (min_vel L) (max_vel L) (1/10))
                                       - fst (nonsingular (min_vel L) (max_vel L) (1/10)))))
                        = Inr (color (placemarks doc ! k))
                    \<and> description (placemarks doc ! k) =
                        js_head
                        @ concat (map (\<lambda>(d, row). [CHR 0x22] @ d @ '', '' @ fmt E (row ! (10 * k))
                                            @ [CHR 0x5C] @ ''n'' @ [CHR 0x22] @ '' + '' @ [CHR 0x0A])
                                      (zip (times inps) (ts L)))
                        @ [CHR 0x22, CHR 0x22] @ '','' @ [CHR 0x0A]
                        @ ''{valueRange: ['' @ fmt E (ts_min L) @ '','' @ fmt E (ts_max L) @ ''],''
                        @ ''ylabel: '' @ [CHR 0x27] @ ''[cm]'' @ [CHR 0x27] @ '',''
                        @ ''});</script>]]>''"
      by (rule run_placemark [OF run L k])
  qed
  note facts = read_data_Inr(2,3,5,6) [OF L] none some pm
  show ?thesis by (intro conjI facts)
qed

text \<open>
  In the 3 by 4 example (limits 0 and 2 given) the first valid pixel has the stored
  velocity 0.01 and the stored displacement 0.01: its colour is that of 1 between 0 and
  2, and its description shows the displacement 1.0 and the range 1.0 to 3.0. In the
  3 by 3 scenario (no limits given) the stored velocities are 0.01 to 0.08 and the
  first pixel has the displacements 0 and 0.001: its colour is that of 1 between 1 and
  8, and its description shows 0.0, 0.1 and the range 0.0 to 0.9.
\<close>

theorem centimetres_witness:
  "map_option (\<lambda>ps. (color (ps ! 0), description (ps ! 0))) (emitted (main example_env strip_inputs))
     = Some (''ff800080'',
             js_head
             @ [CHR 0x22] @ ''2018-01-01, 1.0'' @ [CHR 0x5C] @ ''n'' @ [CHR 0x22] @ '' + '' @ [CHR 0x0A]
             @ [CHR 0x22, CHR 0x22] @ '','' @ [CHR 0x0A]
             @ ''{valueRange: [1.0,3.0],ylabel: '' @ [CHR 0x27] @ ''[cm]'' @ [CHR 0x27]
             @ '',});</script>]]>'')
   \<and> map_option (\<lambda>ps. (color (ps ! 0), description (ps ! 0))) (emitted (main example_env scenario_inputs))
     = Some (''ffff0000'',
             js_head
             @ [CHR 0x22] @ ''2018-01-01, 0.0'' @ [CHR 0x5C] @ ''n'' @ [CHR 0x22] @ '' + '' @ [CHR 0x0A]
             @ [CHR 0x22] @ ''2018-02-01, 0.1'' @ [CHR 0x5C] @ ''n'' @ [CHR 0x22] @ '' + '' @ [CHR 0x0A]
             @ [CHR 0x22, CHR 0x22] @ '','' @ [CHR 0x0A]
             @ ''{valueRange: [0.0,0.9],ylabel: '' @ [CHR 0x27] @ ''[cm]'' @ [CHR 0x27]
             @ '',});</script>]]>'')"
proof -
  have c0: "kml_hex (ramp (1/2)) = Inr ''ff800080''" and c1: "kml_hex (ramp 0) = Inr ''ffff0000''"
    by code_simp+
  have first:
    "map_option (\<lambda>ps. (color (ps ! 0), description (ps ! 0))) (emitted (main example_env strip_inputs))
     = Some (''ff800080'',
             js_head
             @ [CHR 0x22] @ ''2018-01-01, 1.0'' @ [CHR 0x5C] @ ''n'' @ [CHR 0x22] @ '' + '' @ [CHR 0x0A]
             @ [CHR 0x22, CHR 0x22] @ '','' @ [CHR 0x0A]
             @ ''{valueRange: [1.0,3.0],ylabel: '' @ [CHR 0x27] @ ''[cm]'' @ [CHR 0x27]
             @ '',});</script>]]>'')"
  proof -
    obtain doc tr where m: "main example_env strip_inputs = (Inr doc, tr)"
      using strip_run by blast
    have e: "emitted (main example_env strip_inputs) = Some (placemarks doc)"
      by (rule emitted_Inr [OF m])
    have k: "0 < length (placemarks doc)" using strip_emitted by (simp add: e)
    let ?L = "\<lparr> dates = [''2018-01-01''], vel = [1, 1, 1, 1, 1, 1, 1, 1, 1, 1, 2],
           ts = [[1, 1, 1, 1, 1, 1, 1, 1, 1, 1, 3]], ts_min = 1, ts_max = 3,
           min_vel = 0, max_vel = 2, cmap = ''jet'',
           coords = [(9, 0), (9, 8), (9, 12), (6, 0), (6, 4), (6, 8), (6, 12),
                     (3, 0), (3, 4), (3, 8), (3, 12)] \<rparr> :: locals"
    from centimetres [OF m strip_locals]
    have pm: "\<forall>k < length (placemarks doc).
                 \<exists>cm. cmap_d example_env (cmap ?L) = Some cm
                    \<and> 10 * k < length (vel ?L)
                    \<and> kml_hex (cm ((vel ?L ! (10 * k) - fst (nonsingular (min_vel ?L) (max_vel ?L) (1/10)))
                                    / (snd (nonsingular (min_vel ?L) (max_vel ?L) (1/10))
                                       - fst (nonsingular (min_vel ?L) (max_vel ?L) (1/10)))))
                        = Inr (color (placemarks doc ! k))
                    \<and> description (placemarks doc ! k) =
                        js_head
                        @ concat (map (\<lambda>(d, row). [CHR 0x22] @ d @ '', '' @ fmt example_env (row ! (10 * k))
                                            @ [CHR 0x5C] @ ''n'' @ [CHR 0x22] @ '' + '' @ [CHR 0x0A])
                                      (zip (times strip_inputs) (ts ?L)))
                        @ [CHR 0x22, CHR 0x22] @ '','' @ [CHR 0x0A]
                        @ ''{valueRange: ['' @ fmt example_env (ts_min ?L) @ '','' @ fmt example_env (ts_max ?L) @ ''],''
                        @ ''ylabel: '' @ [CHR 0x27] @ ''[cm]'' @ [CHR 0x27] @ '',''
                        @ ''});</script>]]>''"
      by (elim conjE)
    from pm [rule_format, OF k] obtain cm where cm: "cmap_d example_env (cmap ?L) = Some cm"
      and c: "kml_hex (cm ((vel ?L ! (10 * 0) - fst (nonsingular (min_vel ?L) (max_vel ?L) (1/10)))
                                    / (snd (nonsingular (min_vel ?L) (max_vel ?L) (1/10))
                                       - fst (nonsingular (min_vel ?L) (max_vel ?L) (1/10)))))
                        = Inr (color (placemarks doc ! 0))"
      and d: "description (placemarks doc ! 0) =
                        js_head
                        @ concat (map (\<lambda>(d, row). [CHR 0x22] @ d @ '', '' @ fmt example_env (row ! (10 * 0))
                                            @ [CHR 0x5C] @ ''n'' @ [CHR 0x22] @ '' + '' @ [CHR 0x0A])
                                      (zip (times strip_inputs) (ts ?L)))
                        @ [CHR 0x22, CHR 0x22] @ '','' @ [CHR 0x0A]
                        @ ''{valueRange: ['' @ fmt example_env (ts_min ?L) @ '','' @ fmt example_env (ts_max ?L) @ ''],''
                        @ ''ylabel: '' @ [CHR 0x27] @ ''[cm]'' @ [CHR 0x27] @ '',''
                        @ ''});</script>]]>''"
      by (elim exE conjE)
    have cr: "cm = ramp" using cm by (rule example_cmap)
    have "kml_hex (ramp (1/2)) = Inr (color (placemarks doc ! 0))"
      using c by (simp add: cr example_limits)
    then have p: "color (placemarks doc ! 0) = ''ff800080''" using c0 by simp
    have q: "description (placemarks doc ! 0) =
             js_head
             @ [CHR 0x22] @ ''2018-01-01, 1.0'' @ [CHR 0x5C] @ ''n'' @ [CHR 0x22] @ '' + '' @ [CHR 0x0A]
             @ [CHR 0x22, CHR 0x22] @ '','' @ [CHR 0x0A]
             @ ''{valueRange: [1.0,3.0],ylabel: '' @ [CHR 0x27] @ ''[cm]'' @ [CHR 0x27]
             @ '',});</script>]]>''"
      by (simp add: d strip_inputs_def example_fmt show_tenths_values)
    show ?thesis by (simp add: e p q)
  qed
  have second:
    "map_option (\<lambda>ps. (color (ps ! 0), description (ps ! 0))) (emitted (main example_env scenario_inputs))
     = Some (''ffff0000'',
             js_head
             @ [CHR 0x22] @ ''2018-01-01, 0.0'' @ [CHR 0x5C] @ ''n'' @ [CHR 0x22] @ '' + '' @ [CHR 0x0A]
             @ [CHR 0x22] @ ''2018-02-01, 0.1'' @ [CHR 0x5C] @ ''n'' @ [CHR 0x22] @ '' + '' @ [CHR 0x0A]
             @ [CHR 0x22, CHR 0x22] @ '','' @ [CHR 0x0A]
             @ ''{valueRange: [0.0,0.9],ylabel: '' @ [CHR 0x27] @ ''[cm]'' @ [CHR 0x27]
             @ '',});</script>]]>'')"
  proof -
    obtain doc tr where m: "main example_env scenario_inputs = (Inr doc, tr)"
      using scenario_run by blast
    have e: "emitted (main example_env scenario_inputs) = Some (placemarks doc)"
      by (rule emitted_Inr [OF m])
    have k: "0 < length (placemarks doc)" using scenario_emitted by (simp add: e)
    let ?L = "\<lparr> dates = [''2018-01-01'', ''2018-02-01''], vel = [1, 2, 3, 4, 5, 6, 7, 8],
           ts = [[0, 0, 0, 0, 0, 0, 0, 0],
                 [1/10, 2/10, 3/10, 4/10, 6/10, 7/10, 8/10, 9/10]],
           ts_min = 0, ts_max = 9/10, min_vel = 1, max_vel = 8, cmap = ''jet'',
           coords = [(10, 20), (10, 43/2), (10, 23), (17/2, 20), (17/2, 23),
                     (7, 20), (7, 43/2), (7, 23)] \<rparr> :: locals"
    from centimetres [OF m scenario_locals]
    have pm: "\<forall>k < length (placemarks doc).
                 \<exists>cm. cmap_d example_env (cmap ?L) = Some cm
                    \<and> 10 * k < length (vel ?L)
                    \<and> kml_hex (cm ((vel ?L ! (10 * k) - fst (nonsingular (min_vel ?L) (max_vel ?L) (1/10)))
                                    / (snd (nonsingular (min_vel ?L) (max_vel ?L) (1/10))
                                       - fst (nonsingular (min_vel ?L) (max_vel ?L) (1/10)))))
                        = Inr (color (placemarks doc ! k))
                    \<and> description (placemarks doc ! k) =
                        js_head
                        @ concat (map (\<lambda>(d, row). [CHR 0x22] @ d @ '', '' @ fmt example_env (row ! (10 * k))
                                            @ [CHR 0x5C] @ ''n'' @ [CHR 0x22] @ '' + '' @ [CHR 0x0A])
                                      (zip (times scenario_inputs) (ts ?L)))
                        @ [CHR 0x22, CHR 0x22] @ '','' @ [CHR 0x0A]
                        @ ''{valueRange: ['' @ fmt example_env (ts_min ?L) @ '','' @ fmt example_env (ts_max ?L) @ ''],''
                        @ ''ylabel: '' @ [CHR 0x27] @ ''[cm]'' @ [CHR 0x27] @ '',''
                        @ ''});</script>]]>''"
      by (elim conjE)
    from pm [rule_format, OF k] obtain cm where cm: "cmap_d example_env (cmap ?L) = Some cm"
      and c: "kml_hex (cm ((vel ?L ! (10 * 0) - fst (nonsingular (min_vel ?L) (max_vel ?L) (1/10)))
                                    / (snd (nonsingular (min_vel ?L) (max_vel ?L) (1/10))
                                       - fst (nonsingular (min_vel ?L) (max_vel ?L) (1/10)))))
                        = Inr (color (placemarks doc ! 0))"
      and d: "description (placemarks doc ! 0) =
                        js_head
                        @ concat (map (\<lambda>(d, row). [CHR 0x22] @ d @ '', '' @ fmt example_env (row ! (10 * 0))
                                            @ [CHR 0x5C] @ ''n'' @ [CHR 0x22] @ '' + '' @ [CHR 0x0A])
                                      (zip (times scenario_inputs) (ts ?L)))
                        @ [CHR 0x22, CHR 0x22] @ '','' @ [CHR 0x0A]
                        @ ''{valueRange: ['' @ fmt example_env (ts_min ?L) @ '','' @ fmt example_env (ts_max ?L) @ ''],''
                        @ ''ylabel: '' @ [CHR 0x27] @ ''[cm]'' @ [CHR 0x27] @ '',''
                        @ ''});</script>]]>''"
      by (elim exE conjE)
    have cr: "cm = ramp" using cm by (rule example_cmap)
    have "kml_hex (ramp (0)) = Inr (color (placemarks doc ! 0))"
      using c by (simp add: cr example_limits)
    then have p: "color (placemarks doc ! 0) = ''ffff0000''" using c1 by simp
    have q: "description (placemarks doc ! 0) =
             js_head
             @ [CHR 0x22] @ ''2018-01-01, 0.0'' @ [CHR 0x5C] @ ''n'' @ [CHR 0x22] @ '' + '' @ [CHR 0x0A]
             @ [CHR 0x22] @ ''2018-02-01, 0.1'' @ [CHR 0x5C] @ ''n'' @ [CHR 0x22] @ '' + '' @ [CHR 0x0A]
             @ [CHR 0x22, CHR 0x22] @ '','' @ [CHR 0x0A]
             @ ''{valueRange: [0.0,0.9],ylabel: '' @ [CHR 0x27] @ ''[cm]'' @ [CHR 0x27]
             @ '',});</script>]]>''"
      by (simp add: d scenario_inputs_def example_fmt show_tenths_values)
    show ?thesis by (simp add: e p q)
  qed
  show ?thesis using first second by (rule conjI)
qed

subsection \<open>Failures before any output\<close>


lemma main_read_data_Inl: "read_data inps = Inl e \<Longrightarrow> main E inps = (Inl e, [])"
  by (simp add: main_def)





lemma masked_cells_no_valid:
  assumes "\<forall>b \<in> set (concat msk). \<not> b"
  shows "masked_cells a msk = []"
proof -
  have "\<forall>p \<in> set (zip (concat a) (concat msk)). \<not> snd p"
  proof
    fix p assume "p \<in> set (zip (concat a) (concat msk))"
    then have "(fst p, snd p) \<in> set (zip (concat a) (concat msk))" by simp
    then have "snd p \<in> set (concat msk)" by (rule set_zip_rightD)
    then show "\<not> snd p" using assms by blast
  qed
  then have "filter snd (zip (concat a) (concat msk)) = []"
    by (simp add: filter_empty_conv)
  then show ?thesis by (simp add: masked_cells_def)
qed

lemma bool_index_each_Inl: "bool_index_each as msk = Inl e \<Longrightarrow> e = IndexError"
  by (induction as arbitrary: e) (auto simp: ebind_def bool_index_def split: sum.splits if_splits)

lemma np_min_no_cells: "\<forall>r \<in> set t. r = [] \<Longrightarrow> np_min t = Inl ZeroSizeReduction"
proof -
  assume "\<forall>r \<in> set t. r = []"
  then have "concat t = []" by simp
  then show ?thesis by (simp only: np_min_def list.case)
qed

lemma read_data_no_valid:
  assumes "\<forall>b \<in> set (concat (valid_mask (vel_data inps))). \<not> b"
  shows "read_data inps = Inl IndexError \<or> read_data inps = Inl ZeroSizeReduction"
    and "\<forall>a \<in> set (ts_data inps). map length a = map length (vel_data inps)
           \<Longrightarrow> read_data inps = Inl ZeroSizeReduction"
proof -
  let ?msk = "valid_mask (vel_data inps)"
  have sel: "bool_index (vel_data inps) ?msk = Inr (masked_cells (vel_data inps) ?msk)"
    by (simp add: bool_index_def valid_mask_shape)
  have after: "\<And>tsel. bool_index_each (ts_data inps) ?msk = Inr tsel
                 \<Longrightarrow> read_data inps = Inl ZeroSizeReduction"
  proof -
    fix tsel assume t: "bool_index_each (ts_data inps) ?msk = Inr tsel"
    have "tsel = map (\<lambda>a. masked_cells a ?msk) (ts_data inps)"
      using bool_index_each_Inr [OF t] by simp
    then have "\<forall>r \<in> set (map (map (\<lambda>x. x * 100)) tsel). r = []"
      using assms by (auto simp: masked_cells_no_valid)
    then have "np_min (map (map (\<lambda>x. x * 100)) tsel) = Inl ZeroSizeReduction"
      by (rule np_min_no_cells)
    then show "read_data inps = Inl ZeroSizeReduction"
      using sel t by (simp add: read_data_def Let_def ebind_def)
  qed
  show "read_data inps = Inl IndexError \<or> read_data inps = Inl ZeroSizeReduction"
  proof (cases "bool_index_each (ts_data inps) ?msk")
    case (Inl e)
    have "e = IndexError" using Inl by (rule bool_index_each_Inl)
    then show ?thesis using sel Inl by (simp add: read_data_def Let_def ebind_def)
  next
    case (Inr tsel)
    then show ?thesis using after by blast
  qed
  show "\<forall>a \<in> set (ts_data inps). map length a = map length (vel_data inps)
           \<Longrightarrow> read_data inps = Inl ZeroSizeReduction"
  proof -
    assume "\<forall>a \<in> set (ts_data inps). map length a = map length (vel_data inps)"
    then have "\<forall>a \<in> set (ts_data inps). map length a = map length ?msk"
      by (simp add: valid_mask_shape)
    then have "bool_index_each (ts_data inps) ?msk = Inr (map (\<lambda>a. masked_cells a ?msk) (ts_data inps))"
      by (rule bool_index_each_shapes)
    then show ?thesis by (rule after)
  qed
qed

lemma valid_mask_no_valid:
  assumes "\<forall>row \<in> set a. \<forall>x \<in> set row. isnan x"
  shows "\<forall>b \<in> set (concat (valid_mask a)). \<not> b"
  using assms by (auto simp: valid_mask_def)

text \<open>
  C10. When every velocity is not-a-number, the run ends with an exception before the
  legend image, the document or any other file is produced; when the time series has
  the shape of the velocity, the exception is the one of the minimum over no elements
  (line 93).
\<close>

theorem empty_mask_fails:
  assumes "\<forall>row \<in> set (vel_data inps). \<forall>x \<in> set row. isnan x"
  shows "(\<exists>e. main E inps = (Inl e, []))
       \<and> ((\<forall>a \<in> set (ts_data inps). map length a = map length (vel_data inps))
            \<longrightarrow> main E inps = (Inl ZeroSizeReduction, []))"
proof -
  have nv: "\<forall>b \<in> set (concat (valid_mask (vel_data inps))). \<not> b"
    using assms by (rule valid_mask_no_valid)
  have "read_data inps = Inl IndexError \<or> read_data inps = Inl ZeroSizeReduction"
    by (rule read_data_no_valid(1) [OF nv])
  then have a: "\<exists>e. main E inps = (Inl e, [])"
    using main_read_data_Inl by blast
  have b: "(\<forall>a \<in> set (ts_data inps). map length a = map length (vel_data inps))
            \<longrightarrow> main E inps = (Inl ZeroSizeReduction, [])"
    using read_data_no_valid(2) [OF nv] main_read_data_Inl by blast
  show ?thesis using a b by blast
qed

theorem empty_mask_fails_witness:
  "main example_env blank_inputs = (Inl ZeroSizeReduction, [])"
proof -
  have a: "\<forall>row \<in> set (vel_data blank_inputs). \<forall>x \<in> set row. isnan x"
    by (simp add: blank_inputs_def isnan_def)
  have b: "\<forall>a \<in> set (ts_data blank_inputs). map length a = map length (vel_data blank_inputs)"
    by (simp add: blank_inputs_def)
  show ?thesis using empty_mask_fails [OF a, of example_env] b by blast
qed

subsection \<open>The 3 by 3 scenario\<close>

lemma scenario_grid:
  "fst (get_lat_lon scenario_meta) = [[10, 10, 10], [17/2, 17/2, 17/2], [7, 7, 7]]"
  "snd (get_lat_lon scenario_meta) = [[20, 43/2, 23], [20, 43/2, 23], [20, 43/2, 23]]"
  by code_simp+

text \<open>
  On the scenario's raster the rows of the latitude grid are 10, 8.5 and 7, the columns
  of the longitude grid 20, 21.5 and 23, and the run emits one placemark, not eight.
\<close>

theorem scenario_counterexample:
  "fst (get_lat_lon scenario_meta) = [[10, 10, 10], [17/2, 17/2, 17/2], [7, 7, 7]]
   \<and> fst (get_lat_lon scenario_meta) \<noteq> [[10, 10, 10], [9, 9, 9], [8, 8, 8]]
   \<and> snd (get_lat_lon scenario_meta) = [[20, 43/2, 23], [20, 43/2, 23], [20, 43/2, 23]]
   \<and> snd (get_lat_lon scenario_meta) \<noteq> [[20, 21, 22], [20, 21, 22], [20, 21, 22]]
   \<and> map_option length (emitted (main example_env scenario_inputs)) = Some 1
   \<and> map_option length (emitted (main example_env scenario_inputs)) \<noteq> Some 8"
  by (simp add: scenario_grid scenario_emitted)

text \<open>
  C2, as the code has it. On the 3 by 3 raster with origin (10, 20), steps -1 and 1 and
  every velocity a number except the one in the centre: both grids have three rows of
  three cells, cell (0, 0) is at latitude 10 and longitude 20, eight pixels are valid,
  and a run that ends without an exception emits exactly one placemark (the stride is
  the constant 10), that of pixel (0, 0).
\<close>

theorem scenario_placemarks:
  assumes md: "metadata inps = scenario_meta"
    and vd: "vel_data inps = [[Some v00, Some v01, Some v02],
                              [Some v10, None, Some v12],
                              [Some v20, Some v21, Some v22]]"
    and run: "main E inps = (Inr doc, tr)"
  shows "map length (fst (get_lat_lon (metadata inps))) = [3, 3, 3]
       \<and> map length (snd (get_lat_lon (metadata inps))) = [3, 3, 3]
       \<and> fst (get_lat_lon (metadata inps)) ! 0 ! 0 = 10
       \<and> snd (get_lat_lon (metadata inps)) ! 0 ! 0 = 20
       \<and> valid_mask (vel_data inps) = [[True, True, True], [True, False, True], [True, True, True]]
       \<and> length (filter (\<lambda>b. b) (concat (valid_mask (vel_data inps)))) = 8
       \<and> length (placemarks doc) = 1
       \<and> coordinates (placemarks doc ! 0) = fmt E 20 @ '','' @ fmt E 10"
proof -
  have shape: "map length (fst (get_lat_lon (metadata inps))) = [3, 3, 3]"
              "map length (snd (get_lat_lon (metadata inps))) = [3, 3, 3]"
    by (simp_all add: md scenario_grid)
  have corner: "fst (get_lat_lon (metadata inps)) ! 0 ! 0 = 10"
               "snd (get_lat_lon (metadata inps)) ! 0 ! 0 = 20"
    by (simp_all add: md scenario_grid)
  have msk: "valid_mask (vel_data inps) = [[True, True, True], [True, False, True], [True, True, True]]"
    by (simp add: vd valid_mask_def isnan_def)
  have n: "length (filter (\<lambda>b. b) (concat (valid_mask (vel_data inps)))) = 8"
    by (simp add: msk)
  from main_placemarks [OF run] obtain L where L: "read_data inps = Inr L"
    and len: "length (placemarks doc) = (length (coords L) + 9) div 10"
    and each: "\<forall>k < length (placemarks doc).
            10 * k < length (coords L) \<and> build_placemark E L (nonsingular (min_vel L) (max_vel L) (1/10)) (10 * k) = Inr (placemarks doc ! k)"
    by blast
  have c8: "length (coords L) = 8" using read_data_lengths(1) [OF L] n by simp
  have one: "length (placemarks doc) = 1" using len c8 by simp
  then have b: "build_placemark E L (nonsingular (min_vel L) (max_vel L) (1/10)) 0 = Inr (placemarks doc ! 0)" using each by simp
  have "coords L = zip (masked_cells (fst (get_lat_lon (metadata inps))) (valid_mask (vel_data inps)))
                       (masked_cells (snd (get_lat_lon (metadata inps))) (valid_mask (vel_data inps)))"
    by (rule read_data_Inr(9) [OF L])
  then have c0: "coords L ! 0 = (10, 20)"
    by (simp add: md msk scenario_grid masked_cells_def)
  have "coordinates (placemarks doc ! 0) = fmt E (snd (coords L ! 0)) @ '','' @ fmt E (fst (coords L ! 0))"
    using build_placemark_Inr [OF b] by blast
  then have co: "coordinates (placemarks doc ! 0) = fmt E 20 @ '','' @ fmt E 10"
    by (simp add: c0)
  show ?thesis using shape corner msk n one co by blast
qed

theorem scenario_placemarks_witness:
  "map_option (map coordinates) (emitted (main example_env scenario_inputs)) = Some [''20.0,10.0'']"
proof -
  obtain doc tr where m: "main example_env scenario_inputs = (Inr doc, tr)"
    using scenario_run by blast
  have e: "emitted (main example_env scenario_inputs) = Some (placemarks doc)"
    by (rule emitted_Inr [OF m])
  have md: "metadata scenario_inputs = scenario_meta" by (simp add: scenario_inputs_def)
  have vd: "vel_data scenario_inputs = [[Some (1/100), Some (2/100), Some (3/100)],
                   [Some (4/100), None, Some (5/100)],
                   [Some (6/100), Some (7/100), Some (8/100)]]"
    by (simp add: scenario_inputs_def)
  have f: "fmt example_env 20 @ '','' @ fmt example_env 10 = ''20.0,10.0''" by code_simp
  from scenario_placemarks [OF md vd m]
  have "length (placemarks doc) = 1" and "coordinates (placemarks doc ! 0) = ''20.0,10.0''"
    by (simp_all only: f)
  then have "map coordinates (placemarks doc) = [''20.0,10.0'']"
    by (cases "placemarks doc") auto
  then show ?thesis by (simp add: e)
qed

end
